theory Spec2Isabelle
  imports Complex_Main "HOL-Library.Multiset"
begin

section \<open>Conventions of the embedding\<close>

text \<open>
  The program is browser JavaScript. Three things it takes from its platform are made
  explicit parameters of the model.

  \<^item> \<^bold>\<open>Numbers.\<close> A JavaScript Number is modelled as an exact \<open>real\<close>; counters and
    millisecond delays that the source only ever holds as non-negative integers are \<open>nat\<close>.
  \<^item> \<^bold>\<open>Randomness.\<close> \<open>Math.random()\<close> is the next element of a sequence
    \<open>rnd :: nat \<Rightarrow> real\<close>; a position counter says how many draws were consumed.
    ECMAScript promises a draw in \<open>[0, 1)\<close>; theorems that need it assume it.
  \<^item> \<^bold>\<open>Time.\<close> \<open>setTimeout\<close> and \<open>setInterval\<close> advance a virtual clock (in ms)
    by exactly the requested delay; everything between two timer callbacks takes no time.
\<close>

type_synonym random_source = "nat \<Rightarrow> real"

section \<open>animation.js: \<open>Animation.shuffleArray\<close> and \<open>Animation.animateMatching\<close>\<close>

text \<open>A candidate portrait as \<open>animateMatching\<close> reads it: an object with a \<open>src\<close>.\<close>

record character =
  src :: string

text \<open>
  The loop of \<open>shuffleArray\<close>: \<open>for (let i = shuffled.length - 1; i > 0; i--)\<close> with
  \<open>j = Math.floor(Math.random() * (i + 1))\<close> and the destructuring swap, which reads both
  cells first, then writes cell \<open>i\<close>, then cell \<open>j\<close>. The counter \<open>i\<close> is an \<open>int\<close>: it
  starts at \<open>-1\<close> for an empty array. A draw in \<open>[0, 1)\<close> gives \<open>0 \<le> j \<le> i\<close>, so both
  cells exist; what the swap does for other values of \<open>j\<close> is not modelled, and the
  theorems about the shuffle assume draws in \<open>[0, 1)\<close>.
\<close>

function shuffle_loop :: "random_source \<Rightarrow> nat \<Rightarrow> int \<Rightarrow> 'a list \<Rightarrow> 'a list \<times> nat" where
  "shuffle_loop rnd pos i shuffled =
     (if i > 0 then
        (let j = \<lfloor>rnd pos * (of_int i + 1)\<rfloor>
         in shuffle_loop rnd (pos + 1) (i - 1)
              (shuffled[nat i := shuffled ! nat j, nat j := shuffled ! nat i]))
      else (shuffled, pos))"
  by pat_completeness auto
termination
  by (relation "measure (\<lambda>(rnd, pos, i, shuffled). nat i)") auto

text \<open>\<open>shuffleArray\<close> copies its argument and returns the copy with the position of the
  random source after the shuffle.\<close>

definition shuffleArray :: "random_source \<Rightarrow> nat \<Rightarrow> 'a list \<Rightarrow> 'a list \<times> nat" where
  "shuffleArray rnd pos array = shuffle_loop rnd pos (int (length array) - 1) array"

text \<open>
  \<open>currentSwitch % shuffledCharacters.length\<close>: the remainder by zero is \<open>NaN\<close>
  (\<open>None\<close>). \<open>shuffledCharacters[characterIndex]\<close>: reading at \<open>NaN\<close> or past the end
  gives \<open>undefined\<close> (\<open>None\<close>).
\<close>

definition js_mod :: "nat \<Rightarrow> nat \<Rightarrow> nat option" where
  "js_mod a b = (if b = 0 then None else Some (a mod b))"

definition js_index :: "'a list \<Rightarrow> nat option \<Rightarrow> 'a option" where
  "js_index xs i = (case i of None \<Rightarrow> None | Some k \<Rightarrow> if k < length xs then Some (xs ! k) else None)"

text \<open>One firing of the interval callback, as an entry of the run's log.\<close>

record switch =
  switch_time :: nat
  switch_character :: "character option"
  switch_src :: string
  switch_percentage :: int
  switch_resolved :: bool

record matching =
  currentSwitch :: nat
  characterImg_src :: string
  matchPercentage :: int
  rng_pos :: nat
  clock :: nat
  switches :: "switch list"
  intervalCleared :: bool
  resolved :: bool

definition switchInterval :: nat where
  "switchInterval = 200"

text \<open>
  The body of the \<open>setInterval\<close> callback of \<open>animateMatching\<close>. The candidate is
  written to the image only \<open>if (character)\<close>; the percentage is
  \<open>Math.floor(Math.random() * 41) + 20\<close> (the text written is that number followed by
  \<open>%\<close>); the interval is cleared and the promise resolved once
  \<open>currentSwitch >= switchCount\<close> after the increment.
\<close>

definition on_interval :: "random_source \<Rightarrow> character list \<Rightarrow> nat \<Rightarrow> matching \<Rightarrow> matching" where
  "on_interval rnd shuffledCharacters switchCount s =
     (let characterIndex = js_mod (currentSwitch s) (length shuffledCharacters);
          character = js_index shuffledCharacters characterIndex;
          img = (case character of Some c \<Rightarrow> src c | None \<Rightarrow> characterImg_src s);
          percentage = \<lfloor>rnd (rng_pos s) * 41\<rfloor> + 20;
          n = currentSwitch s + 1;
          done = (n \<ge> switchCount)
      in s\<lparr>currentSwitch := n,
            characterImg_src := img,
            matchPercentage := percentage,
            rng_pos := rng_pos s + 1,
            switches := switches s @
              [\<lparr>switch_time = clock s, switch_character = character, switch_src = img,
                switch_percentage = percentage, switch_resolved = done\<rparr>],
            intervalCleared := (done \<or> intervalCleared s),
            resolved := (done \<or> resolved s)\<rparr>)"

text \<open>\<open>setInterval\<close>: the callback fires every \<open>switchInterval\<close> ms until it clears
  the interval.\<close>

function run_interval :: "random_source \<Rightarrow> character list \<Rightarrow> nat \<Rightarrow> matching \<Rightarrow> matching" where
  "run_interval rnd shuffledCharacters switchCount s =
     (let s' = on_interval rnd shuffledCharacters switchCount (s\<lparr>clock := clock s + switchInterval\<rparr>)
      in if intervalCleared s' then s' else run_interval rnd shuffledCharacters switchCount s')"
  by pat_completeness auto
termination
  by (relation "measure (\<lambda>(rnd, shuffledCharacters, switchCount, s). switchCount - currentSwitch s)")
     (auto simp: on_interval_def Let_def)

text \<open>
  \<open>animateMatching(userCanvas, characterImages, duration)\<close>. The canvas argument is not
  used by the source. \<open>img0\<close> is what the image element shows before the run. The
  shuffle takes its draws first, the switches take the following ones.
\<close>

definition animateMatching :: "random_source \<Rightarrow> string \<Rightarrow> character list \<Rightarrow> nat \<Rightarrow> matching" where
  "animateMatching rnd img0 characterImages duration =
     (let sh = shuffleArray rnd 0 characterImages;
          shuffledCharacters = fst sh;
          switchCount = duration div switchInterval
      in run_interval rnd shuffledCharacters switchCount
           \<lparr>currentSwitch = 0, characterImg_src = img0, matchPercentage = 0,
            rng_pos = snd sh, clock = 0, switches = [],
            intervalCleared = False, resolved = False\<rparr>)"

subsection \<open>The log of a run in closed form\<close>

text \<open>What the \<open>k\<close>-th firing (counted from 0) writes to the log, and the state after
  \<open>c\<close> firings; \<open>pos0\<close> is the position of the random source at the first firing. Both are
  used to prove the properties of \<open>run_interval\<close> by induction.\<close>

definition switch_at :: "random_source \<Rightarrow> character list \<Rightarrow> nat \<Rightarrow> string \<Rightarrow> nat \<Rightarrow> nat \<Rightarrow> switch" where
  "switch_at rnd sh switchCount img0 pos0 k =
     \<lparr>switch_time = switchInterval * (k + 1),
      switch_character = js_index sh (js_mod k (length sh)),
      switch_src = (case js_index sh (js_mod k (length sh)) of Some c \<Rightarrow> src c | None \<Rightarrow> img0),
      switch_percentage = \<lfloor>rnd (pos0 + k) * 41\<rfloor> + 20,
      switch_resolved = (switchCount \<le> k + 1)\<rparr>"

definition after_switches :: "random_source \<Rightarrow> character list \<Rightarrow> nat \<Rightarrow> string \<Rightarrow> nat \<Rightarrow> nat \<Rightarrow> matching \<Rightarrow> bool" where
  "after_switches rnd sh switchCount img0 pos0 c s =
     (currentSwitch s = c \<and> rng_pos s = pos0 + c \<and> clock s = switchInterval * c \<and>
      switches s = map (switch_at rnd sh switchCount img0 pos0) [0..<c] \<and>
      (sh = [] \<longrightarrow> characterImg_src s = img0) \<and>
      intervalCleared s = (0 < c \<and> switchCount \<le> c) \<and>
      resolved s = (0 < c \<and> switchCount \<le> c))"

subsection \<open>Sample inputs\<close>

definition pool3 :: "character list" where
  "pool3 = [\<lparr>src = ''a.jpg''\<rparr>, \<lparr>src = ''b.jpg''\<rparr>, \<lparr>src = ''c.jpg''\<rparr>]"

text \<open>The \<open>src\<close> values of \<open>Preloader.generatePlaceholderImages()\<close>.\<close>

definition pool19 :: "character list" where
  "pool19 = map (\<lambda>f. \<lparr>src = ''assets/images/characters/'' @ f\<rparr>)
     [''joi.avif'', ''devil.webp'', ''evelyn.jpg'', ''elisha.avif'', ''carolina.webp'',
      ''nancy.jpg'', ''persephone.jpg'', ''ilsa.jpg'', ''rita.jpeg'', ''rick.webp'',
      ''indiana.webp'', ''aragorn.webp'', ''christian.webp'', ''driver.jpg'', ''westley.webp'',
      ''bloodsport.jpg'', ''naomi.webp'', ''allison.webp'', ''bandit.webp'']"

definition rnd7 :: random_source where
  "rnd7 k = real ((3 * k + 2) mod 7) / 7"

section \<open>Audio elements\<close>

text \<open>
  What \<open>sound.play()\<close> does is the platform's choice: it may throw, return \<open>undefined\<close>
  (old browsers), or return a promise that is fulfilled or rejected with an error of some
  name (\<open>NotAllowedError\<close> when autoplay is blocked). An audio element is its \<open>src\<close> and
  that behaviour; a sound that failed to load is \<open>null\<close> (\<open>None\<close>).
\<close>

datatype play_outcome = PlayThrows | PlayUndefined | PlayFulfilled | PlayRejected string

record audio =
  audio_src :: string
  audio_play :: play_outcome

text \<open>The elements on which a guarded playback (\<open>playSound\<close>, or the inline one of
  \<open>animateReveal\<close>) really calls \<open>play()\<close> without an exception: none for a missing
  sound or a throwing one.\<close>

definition play_calls :: "audio option \<Rightarrow> string list" where
  "play_calls sound =
     (case sound of None \<Rightarrow> []
      | Some a \<Rightarrow> (if audio_play a = PlayThrows then [] else [audio_src a]))"

section \<open>animation.js: \<open>Animation.animateReveal\<close>\<close>



text \<open>\<open>PlayAudio\<close> records that \<open>play()\<close> was called on the element with that \<open>src\<close> and
  did not throw.\<close>









section \<open>camera.js: the countdown and the capture\<close>

datatype camera_event =
    OverlayActive bool
  | CountdownNumber int
  | Play string
  | DrawVideoFrame nat nat
  | ToBlob

text \<open>The camera object: the stream it holds (\<open>None\<close> is \<open>null\<close>), the video's frame
  size, the two sounds, the virtual clock, the effects with their times, the console.\<close>

record camera =
  stream :: "nat option"
  videoWidth :: nat
  videoHeight :: nat
  timerBeepSound :: "audio option"
  shutterSound :: "audio option"
  camera_clock :: nat
  camera_log :: "(nat \<times> camera_event) list"
  camera_console :: "string list"

definition camera_emit :: "camera_event \<Rightarrow> camera \<Rightarrow> camera" where
  "camera_emit e s = s\<lparr>camera_log := camera_log s @ [(camera_clock s, e)]\<rparr>"

definition camera_warn :: "string \<Rightarrow> camera \<Rightarrow> camera" where
  "camera_warn msg s = s\<lparr>camera_console := camera_console s @ [msg]\<rparr>"

text \<open>\<open>playSound(sound)\<close>: nothing for a \<open>null\<close> sound; otherwise rewind and play inside
  \<open>try\<close>, with a \<open>catch\<close> handler on the promise.\<close>

definition playSound :: "audio option \<Rightarrow> camera \<Rightarrow> camera" where
  "playSound sound s =
     (case sound of
        None \<Rightarrow> s
      | Some a \<Rightarrow>
          (case audio_play a of
             PlayThrows \<Rightarrow> camera_warn ''Error playing sound:'' s
           | PlayUndefined \<Rightarrow> camera_emit (Play (audio_src a)) s
           | PlayFulfilled \<Rightarrow> camera_emit (Play (audio_src a)) s
           | PlayRejected name \<Rightarrow>
               (let s1 = camera_warn ''Could not play sound:'' (camera_emit (Play (audio_src a)) s)
                in if name = ''NotAllowedError''
                   then camera_warn ''Audio playback blocked. User interaction may be required.'' s1
                   else s1)))"

text \<open>
  The \<open>setInterval\<close> callback of \<open>startCountdown\<close>, fired every 1000 ms: write
  \<open>count\<close> to the overlay, decrement, and stop \<open>if (count < 0)\<close>. (\<open>count0\<close> is the
  source's \<open>count\<close> on entry, \<open>count1\<close> after \<open>count--\<close>.)
\<close>

function countdownInterval :: "int \<Rightarrow> camera \<Rightarrow> camera" where
  "countdownInterval count0 s =
     (let s1 = camera_emit (CountdownNumber count0) (s\<lparr>camera_clock := camera_clock s + 1000\<rparr>);
          count1 = count0 - 1
      in if count1 < 0 then camera_emit (OverlayActive False) s1
         else countdownInterval count1 s1)"
  by pat_completeness auto
termination
  by (relation "measure (\<lambda>(count0, s). nat count0)") auto

definition startCountdown :: "camera \<Rightarrow> camera" where
  "startCountdown s =
     countdownInterval 3 (playSound (timerBeepSound s) (camera_emit (OverlayActive True) s))"

text \<open>\<open>capturePhoto()\<close>: the countdown, the shutter sound, the frame drawn at the video's
  size, the blob.\<close>

definition capturePhoto :: "camera \<Rightarrow> camera" where
  "capturePhoto s =
     (let s = startCountdown s;
          s = playSound (shutterSound s) s;
          s = camera_emit (DrawVideoFrame (videoWidth s) (videoHeight s)) s;
          s = camera_emit ToBlob s
      in s)"

text \<open>\<open>stop()\<close>: stop every track of the stream, if there is one, and forget it.\<close>

definition stop :: "camera \<Rightarrow> camera" where
  "stop s = s\<lparr>stream := None\<rparr>"

subsection \<open>Sample camera\<close>

definition camera0 :: camera where
  "camera0 = \<lparr>stream = Some 1, videoWidth = 1280, videoHeight = 720,
     timerBeepSound = Some \<lparr>audio_src = ''assets/sounds/timer-beep.mp3'', audio_play = PlayFulfilled\<rparr>,
     shutterSound = Some \<lparr>audio_src = ''assets/sounds/camera-shutter.mp3'', audio_play = PlayFulfilled\<rparr>,
     camera_clock = 0, camera_log = [], camera_console = []\<rparr>"

section \<open>faceDetection.js: \<open>FaceDetection.cropToFace\<close>\<close>

text \<open>The detection's bounding box, a canvas (its size and what was drawn on it), and an
  \<open>{x, y}\<close> offset. Coordinates are Numbers; the width and the height of a canvas are DOM
  attributes of type \<open>unsigned long\<close>, so they are whole and not negative.\<close>

record box =
  box_x :: real
  box_y :: real
  box_width :: real
  box_height :: real

datatype canvas_op =
    FillRect real real real real string
  | DrawImage real real real real real real real real

record canvas =
  canvas_width :: nat
  canvas_height :: nat
  canvas_ops :: "canvas_op list"

record offset =
  off_x :: real
  off_y :: real

record cropped =
  cropped_canvas :: canvas
  cropped_offset :: offset

text \<open>
  Assigning a Number to \<open>canvas.width\<close> or \<open>canvas.height\<close>. The Number is converted to an
  \<open>unsigned long\<close>: truncated towards zero and reduced modulo \<open>2^32\<close>. The attribute takes
  the result if it is at most \<open>2147483647\<close>, and its default otherwise (300 for the width,
  150 for the height); so a negative size gives the default.
\<close>

definition to_unsigned_long :: "real \<Rightarrow> nat" where
  "to_unsigned_long v = nat ((if v < 0 then \<lceil>v\<rceil> else \<lfloor>v\<rfloor>) mod 4294967296)"

definition set_dimension :: "nat \<Rightarrow> real \<Rightarrow> nat" where
  "set_dimension dflt v =
     (let n = to_unsigned_long v in if n \<le> 2147483647 then n else dflt)"

text \<open>
  \<open>cropToFace(canvas, detection, padding = 50)\<close>, with \<open>detection.detection.box\<close> passed as
  \<open>box\<close>. \<open>DrawImage sx sy sw sh dx dy dw dh\<close> copies the source rectangle
  \<open>(sx, sy, sw, sh)\<close> of the source canvas to \<open>(dx, dy, dw, dh)\<close>. (\<open>size'\<close> is the source's
  \<open>size\<close>.) The drawing calls and the offset use the Number \<open>size\<close>; only the two attributes
  of the new canvas hold it converted.
\<close>

definition cropToFace :: "canvas \<Rightarrow> box \<Rightarrow> real \<Rightarrow> cropped" where
  "cropToFace canvas box padding =
     (let x = max 0 (box_x box - padding);
          y = max 0 (box_y box - padding);
          width = min (real (canvas_width canvas) - x) (box_width box + padding * 2);
          height = min (real (canvas_height canvas) - y) (box_height box + padding * 2);
          size' = max width height;
          offsetX = (size' - width) / 2;
          offsetY = (size' - height) / 2
      in \<lparr>cropped_canvas =
            \<lparr>canvas_width = set_dimension 300 size', canvas_height = set_dimension 150 size',
             canvas_ops = [FillRect 0 0 size' size' ''#1e293b'',
                           DrawImage x y width height offsetX offsetY width height]\<rparr>,
          cropped_offset = \<lparr>off_x = x - offsetX, off_y = y - offsetY\<rparr>\<rparr>)"

subsection \<open>Sample inputs: a 100 x 300 source with a face box of 20 x 100 at (10, 60), with one
  of 20 x 100.5 there, and with one of 20 x 20 at (400, 400), outside the source\<close>

definition source_100x300 :: canvas where
  "source_100x300 = \<lparr>canvas_width = 100, canvas_height = 300, canvas_ops = []\<rparr>"

definition box_20x100 :: box where
  "box_20x100 = \<lparr>box_x = 10, box_y = 60, box_width = 20, box_height = 100\<rparr>"

definition box_fractional :: box where
  "box_fractional = \<lparr>box_x = 10, box_y = 60, box_width = 20, box_height = 201 / 2\<rparr>"

definition box_outside :: box where
  "box_outside = \<lparr>box_x = 400, box_y = 400, box_width = 20, box_height = 20\<rparr>"

section \<open>faceDetection.js: the progressive landmark reveal\<close>

record point =
  pt_x :: real
  pt_y :: real

text \<open>What is drawn: a filled circle (centre, radius, and whether the glow
  \<open>shadowBlur = 10\<close> is on), or a stroked path through the given vertices, closed or not.\<close>

datatype landmark_op =
    Arc real real real bool
  | Path bool "(real \<times> real) list"

record landmarks =
  landmarks_clock :: nat
  landmarks_log :: "(nat \<times> landmark_op) list"

text \<open>\<open>positions.slice(a, b)\<close> for indices \<open>0 \<le> a\<close>, \<open>0 \<le> b\<close>.\<close>

definition slice :: "nat \<Rightarrow> nat \<Rightarrow> 'a list \<Rightarrow> 'a list" where
  "slice a b xs = take (b - a) (drop a xs)"

definition shifted :: "offset \<Rightarrow> point \<Rightarrow> real \<times> real" where
  "shifted offset p = (pt_x p - off_x offset, pt_y p - off_y offset)"

text \<open>\<open>drawPath\<close> and \<open>drawClosedPath\<close>: nothing for fewer than two points.\<close>

definition drawPath :: "point list \<Rightarrow> offset \<Rightarrow> landmark_op list" where
  "drawPath points offset = (if length points < 2 then [] else [Path False (map (shifted offset) points)])"

definition drawClosedPath :: "point list \<Rightarrow> offset \<Rightarrow> landmark_op list" where
  "drawClosedPath points offset = (if length points < 2 then [] else [Path True (map (shifted offset) points)])"

definition drawLandmarkConnections :: "point list \<Rightarrow> offset \<Rightarrow> landmark_op list" where
  "drawLandmarkConnections positions offset =
     drawPath (slice 0 17 positions) offset @
     drawPath (slice 17 22 positions) offset @
     drawPath (slice 22 27 positions) offset @
     drawPath (slice 27 31 positions) offset @
     drawPath (slice 31 36 positions) offset @
     drawClosedPath (slice 36 42 positions) offset @
     drawClosedPath (slice 42 48 positions) offset @
     drawClosedPath (slice 48 60 positions) offset @
     drawClosedPath (slice 60 68 positions) offset"

definition delayBetweenPoints :: nat where
  "delayBetweenPoints = 30"

text \<open>The loop of \<open>animateLandmarksProgressive\<close>: draw the point with the glow, radius 3,
  then wait \<open>delayBetweenPoints\<close>.\<close>

fun draw_points :: "point list \<Rightarrow> offset \<Rightarrow> landmarks \<Rightarrow> landmarks" where
  "draw_points [] offset s = s"
| "draw_points (p # ps) offset s =
     draw_points ps offset
       (s\<lparr>landmarks_log := landmarks_log s @
             [(landmarks_clock s, Arc (pt_x p - off_x offset) (pt_y p - off_y offset) 3 True)],
          landmarks_clock := landmarks_clock s + delayBetweenPoints\<rparr>)"

definition animateLandmarksProgressive :: "point list \<Rightarrow> offset \<Rightarrow> landmarks" where
  "animateLandmarksProgressive positions offset =
     (let s = draw_points positions offset \<lparr>landmarks_clock = 0, landmarks_log = []\<rparr>;
          s = s\<lparr>landmarks_log := landmarks_log s @
                  map (\<lambda>op. (landmarks_clock s, op)) (drawLandmarkConnections positions offset)\<rparr>
      in s\<lparr>landmarks_clock := landmarks_clock s + 1000\<rparr>)"

text \<open>The vertices of a path through the points \<open>a, ..., b - 1\<close>.\<close>

definition through :: "point list \<Rightarrow> offset \<Rightarrow> nat \<Rightarrow> nat \<Rightarrow> (real \<times> real) list" where
  "through positions offset a b = map (\<lambda>i. shifted offset (positions ! i)) [a..<b]"

subsection \<open>Sample input: 68 points on a line\<close>

definition positions68 :: "point list" where
  "positions68 = map (\<lambda>i. \<lparr>pt_x = real i, pt_y = 2 * real i\<rparr>) [0..<68]"

section \<open>Promises\<close>

text \<open>A promise is pending, fulfilled with a value, or rejected with an \<open>Error\<close> of some
  message.\<close>

datatype 'a promise = Pending | Resolved 'a | Rejected string

section \<open>camera.js: \<open>Camera.loadImageFromFile\<close>\<close>

record upload_file =
  file_name :: string
  file_type :: string

record image =
  image_src :: string

definition startsWith :: "string \<Rightarrow> string \<Rightarrow> bool" where
  "startsWith s p = (take (length p) s = p)"

text \<open>
  \<open>loadImageFromFile(file)\<close>. The platform is two functions: \<open>readAsDataURL\<close> gives the
  file's data URL or fails (\<open>reader.onerror\<close>), and \<open>decode\<close> gives the image for a URL or
  fails (\<open>img.onerror\<close>).
\<close>

definition loadImageFromFile :: "(upload_file \<Rightarrow> string option) \<Rightarrow> (string \<Rightarrow> image option) \<Rightarrow> upload_file \<Rightarrow> image promise" where
  "loadImageFromFile readAsDataURL decode file =
     (if \<not> startsWith (file_type file) ''image/'' then Rejected ''File is not an image''
      else case readAsDataURL file of
             None \<Rightarrow> Rejected ''Failed to read file''
           | Some url \<Rightarrow>
               (case decode url of
                  None \<Rightarrow> Rejected ''Failed to load image''
                | Some img \<Rightarrow> Resolved img))"

subsection \<open>Sample platform: the data URL is the file's type and name; only names ending
  in \<open>.png\<close> with an image type decode\<close>

definition sample_read :: "upload_file \<Rightarrow> string option" where
  "sample_read f = (if file_name f = [] then None else Some (''data:'' @ file_type f @ '','' @ file_name f))"

definition sample_decode :: "string \<Rightarrow> image option" where
  "sample_decode url = (if url = ''data:image/png,face.png'' then Some \<lparr>image_src = url\<rparr> else None)"

section \<open>preloader.js: \<open>Preloader\<close>\<close>

text \<open>
  The values the loads are resolved with: an image or audio element (by its \<open>src\<close>),
  \<open>null\<close>, or the boolean of \<open>loadFaceApiModels\<close>.
\<close>

datatype jsval = Handle string | Null | Bool bool

text \<open>\<open>Promise.all\<close> over an array of promises: rejected if a member is, fulfilled with
  the array of the values when all members are, pending otherwise.\<close>

fun promise_all :: "'a promise list \<Rightarrow> 'a list promise" where
  "promise_all [] = Resolved []"
| "promise_all (p # ps) =
     (case p of
        Rejected e \<Rightarrow> Rejected e
      | Pending \<Rightarrow> (case promise_all ps of Rejected e \<Rightarrow> Rejected e | _ \<Rightarrow> Pending)
      | Resolved v \<Rightarrow>
          (case promise_all ps of
             Resolved vs \<Rightarrow> Resolved (v # vs)
           | Pending \<Rightarrow> Pending
           | Rejected e \<Rightarrow> Rejected e))"

text \<open>\<open>Promise.all\<close> over the four promises of \<open>loadAll\<close>, whose values are of
  different kinds.\<close>

definition promise_all4 ::
  "'a promise \<Rightarrow> 'b promise \<Rightarrow> 'c promise \<Rightarrow> 'd promise \<Rightarrow> ('a \<times> 'b \<times> 'c \<times> 'd) promise" where
  "promise_all4 a b c d =
     (case a of Rejected e \<Rightarrow> Rejected e | _ \<Rightarrow>
      case b of Rejected e \<Rightarrow> Rejected e | _ \<Rightarrow>
      case c of Rejected e \<Rightarrow> Rejected e | _ \<Rightarrow>
      case d of Rejected e \<Rightarrow> Rejected e | _ \<Rightarrow>
      (case a of Resolved x \<Rightarrow>
         (case b of Resolved y \<Rightarrow>
            (case c of Resolved z \<Rightarrow>
               (case d of Resolved w \<Rightarrow> Resolved (x, y, z, w) | _ \<Rightarrow> Pending)
             | _ \<Rightarrow> Pending)
          | _ \<Rightarrow> Pending)
       | _ \<Rightarrow> Pending))"

text \<open>The loads that \<open>loadAll\<close> starts: one per character image, the sloth image, one per
  sound, and the pair of detection models, which \<open>loadFaceApiModels\<close> awaits together.\<close>

datatype asset = CharacterImage nat | SlothImage | Sound nat | FaceApiModels

text \<open>\<open>characterImage_srcs\<close> is \<open>characterImages\<close> of \<open>loadAll\<close>, \<open>sound_srcs\<close> its
  \<open>sounds\<close>.\<close>

definition characterImage_srcs :: "string list" where
  "characterImage_srcs = map src pool19"

definition slothPlaceholder_src :: string where
  "slothPlaceholder_src = ''assets/images/characters/sloth.webp''"

definition sound_srcs :: "string list" where
  "sound_srcs = [''assets/sounds/timer-beep.mp3'', ''assets/sounds/camera-shutter.mp3'',
             ''assets/sounds/trumpet.mp3'']"

definition asset_src :: "asset \<Rightarrow> string" where
  "asset_src a =
     (case a of CharacterImage i \<Rightarrow> characterImage_srcs ! i | SlothImage \<Rightarrow> slothPlaceholder_src
      | Sound i \<Rightarrow> sound_srcs ! i | FaceApiModels \<Rightarrow> ''weights'')"

text \<open>The events of an audio element that \<open>loadSound\<close> listens to.\<close>

datatype media_event = CanPlayThrough | LoadedData | MediaError

text \<open>The preloader: its two counters, every width written to the bar, the status text,
  the promise of every load, and the listeners still attached to the element of each
  sound.\<close>

record preloader =
  totalAssets :: nat
  loadedAssets :: nat
  progress_widths :: "real list"
  statusText :: string
  promises :: "asset \<Rightarrow> jsval promise"
  listeners :: "nat \<Rightarrow> media_event set"

text \<open>\<open>updateProgress\<close>: the percentage \<open>loadedAssets / totalAssets * 100\<close> is written to
  the bar (every value written is kept in \<open>progress_widths\<close>) and decides the status text.\<close>

definition updateProgress :: "preloader \<Rightarrow> preloader" where
  "updateProgress p =
     (let progress = real (loadedAssets p) / real (totalAssets p) * 100
      in p\<lparr>progress_widths := progress_widths p @ [progress],
           statusText :=
             (if progress < 30 then ''Loading assets...''
              else if progress < 70 then ''Loading facial recognition models...''
              else if progress < 100 then ''Almost ready...''
              else ''Ready!'')\<rparr>)"

text \<open>\<open>resolve(v)\<close> on the promise of a load; a settled promise stays as it is.\<close>

definition resolve :: "asset \<Rightarrow> jsval \<Rightarrow> preloader \<Rightarrow> preloader" where
  "resolve a v p =
     (case promises p a of Pending \<Rightarrow> p\<lparr>promises := (promises p)(a := Resolved v)\<rparr> | _ \<Rightarrow> p)"

text \<open>What every handler ends with: \<open>this.loadedAssets++\<close> (or \<open>+= 2\<close>),
  \<open>this.updateProgress()\<close>, and the value the load is resolved with.\<close>

definition counted :: "nat \<Rightarrow> asset \<Rightarrow> jsval \<Rightarrow> preloader \<Rightarrow> preloader" where
  "counted n a v p = resolve a v (updateProgress (p\<lparr>loadedAssets := loadedAssets p + n\<rparr>))"

text \<open>\<open>loadImage\<close>: \<open>onload\<close> resolves with the image, \<open>onerror\<close> with \<open>null\<close>; an image
  fires one of the two, once.\<close>

definition image_settles :: "asset \<Rightarrow> bool \<Rightarrow> preloader \<Rightarrow> preloader" where
  "image_settles a ok p = counted 1 a (if ok then Handle (asset_src a) else Null) p"

text \<open>
  \<open>loadSound\<close>: \<open>handleCanPlay\<close> listens to \<open>canplaythrough\<close> and \<open>loadeddata\<close>, removes
  itself from both and resolves with the element; \<open>handleError\<close> listens to \<open>error\<close>, removes
  itself from \<open>error\<close> and resolves with \<open>null\<close>. Neither removes the other. An event
  that has no listener left does nothing.
\<close>

definition handleCanPlay :: "nat \<Rightarrow> preloader \<Rightarrow> preloader" where
  "handleCanPlay i p =
     counted 1 (Sound i) (Handle (asset_src (Sound i)))
       (p\<lparr>listeners := (listeners p)(i := listeners p i - {CanPlayThrough, LoadedData})\<rparr>)"

definition handleError :: "nat \<Rightarrow> preloader \<Rightarrow> preloader" where
  "handleError i p =
     counted 1 (Sound i) Null (p\<lparr>listeners := (listeners p)(i := listeners p i - {MediaError})\<rparr>)"

definition sound_fires :: "nat \<Rightarrow> media_event \<Rightarrow> preloader \<Rightarrow> preloader" where
  "sound_fires i e p =
     (if e \<in> listeners p i
      then (case e of MediaError \<Rightarrow> handleError i p | _ \<Rightarrow> handleCanPlay i p)
      else p)"

text \<open>\<open>loadFaceApiModels\<close> counts 2 in both branches of its \<open>try\<close>, updates the progress
  and returns \<open>true\<close> or \<open>false\<close>.\<close>

definition models_settle :: "bool \<Rightarrow> preloader \<Rightarrow> preloader" where
  "models_settle ok p = counted 2 FaceApiModels (Bool ok) p"

text \<open>What the platform does to the loads, in the order it does it: an image loads or
  fails, an audio element fires an event, the models are loaded or not.\<close>

datatype load_event =
    ImageSettles nat bool
  | SlothSettles bool
  | SoundFires nat media_event
  | ModelsSettle bool

definition on_load_event :: "load_event \<Rightarrow> preloader \<Rightarrow> preloader" where
  "on_load_event ev p =
     (case ev of
        ImageSettles i ok \<Rightarrow> image_settles (CharacterImage i) ok p
      | SlothSettles ok \<Rightarrow> image_settles SlothImage ok p
      | SoundFires i e \<Rightarrow> sound_fires i e p
      | ModelsSettle ok \<Rightarrow> models_settle ok p)"

fun run_schedule :: "load_event list \<Rightarrow> preloader \<Rightarrow> preloader" where
  "run_schedule [] p = p"
| "run_schedule (ev # evs) p = run_schedule evs (on_load_event ev p)"

record assets =
  images :: "jsval list"
  slothImage :: jsval
  sounds_timerBeep :: jsval
  sounds_cameraShutter :: jsval
  sounds_trumpet :: jsval

text \<open>A read past the end of an array gives \<open>undefined\<close>, kept as \<open>Null\<close> here (both are
  falsy and both mean a missing sound to the callers).\<close>

definition at_index :: "jsval list \<Rightarrow> nat \<Rightarrow> jsval" where
  "at_index vs i = (if i < length vs then vs ! i else Null)"

text \<open>
  \<open>loadAll()\<close>: set \<open>totalAssets\<close>, start every load, await
  \<open>Promise.all([Promise.all(imagePromises), slothPromise, Promise.all(soundPromises),
  modelsPromise])\<close> and store what was loaded. The result is the preloader after the schedule
  and the state of the promise that \<open>loadAll\<close> returns.
\<close>

definition loadAll :: "load_event list \<Rightarrow> preloader \<times> assets promise" where
  "loadAll schedule =
     (let p0 = \<lparr>totalAssets = length characterImage_srcs + length sound_srcs + 2 + 1, loadedAssets = 0,
                progress_widths = [], statusText = [], promises = (\<lambda>a. Pending),
                listeners = (\<lambda>i. {CanPlayThrough, LoadedData, MediaError})\<rparr>;
          p = run_schedule schedule p0;
          imagePromises = map (\<lambda>i. promises p (CharacterImage i)) [0..<length characterImage_srcs];
          slothPromise = promises p SlothImage;
          soundPromises = map (\<lambda>i. promises p (Sound i)) [0..<length sound_srcs];
          modelsPromise = promises p FaceApiModels
      in (p,
          case promise_all4 (promise_all imagePromises) slothPromise
                 (promise_all soundPromises) modelsPromise of
            Resolved (loadedImages, sloth, loadedSounds, m) \<Rightarrow>
              Resolved \<lparr>images = filter (\<lambda>img. img \<noteq> Null) loadedImages,
                        slothImage = sloth,
                        sounds_timerBeep = at_index loadedSounds 0,
                        sounds_cameraShutter = at_index loadedSounds 1,
                        sounds_trumpet = at_index loadedSounds 2\<rparr>
          | Rejected e \<Rightarrow> Rejected e
          | Pending \<Rightarrow> Pending))"

text \<open>Used in the proofs: the values written to the bar so far are in ascending order and
  none is above the current percentage.\<close>

definition bar_below :: "preloader \<Rightarrow> bool" where
  "bar_below p = (sorted (progress_widths p) \<and>
     (\<forall>x \<in> set (progress_widths p). x \<le> real (loadedAssets p) / real (totalAssets p) * 100))"

text \<open>Used in the proofs: the preloader when \<open>loadAll\<close> has started the loads.\<close>

definition p0 :: preloader where
  "p0 = \<lparr>totalAssets = length characterImage_srcs + length sound_srcs + 2 + 1, loadedAssets = 0,
         progress_widths = [], statusText = [], promises = (\<lambda>a. Pending),
         listeners = (\<lambda>i. {CanPlayThrough, LoadedData, MediaError})\<rparr>"

subsection \<open>Sample schedules\<close>

text \<open>Every load completes once: the second sound fails, everything else loads. The first
  sound fires both \<open>loadeddata\<close> and \<open>canplaythrough\<close>, as a sound that loads does.\<close>

definition schedule_once :: "load_event list" where
  "schedule_once =
     [SoundFires 0 LoadedData, SoundFires 0 CanPlayThrough, SoundFires 1 MediaError,
      SoundFires 2 CanPlayThrough] @
     map (\<lambda>i. ImageSettles i True) [0..<19] @ [SlothSettles True, ModelsSettle True]"

text \<open>The same, and then the first sound, whose first frame was there, fails in the rest of
  its download: \<open>error\<close> after \<open>loadeddata\<close>.\<close>

definition schedule_twice :: "load_event list" where
  "schedule_twice = schedule_once @ [SoundFires 0 MediaError]"

section \<open>The application: the capture stage and the screens\<close>

text \<open>
  The screens are the elements that \<open>switchScreen\<close> is called with; the \<open>active\<close> class
  decides which are visible. The upload stage is \<open>upload-screen\<close>, the capture stage
  \<open>webcam-screen\<close>.
\<close>

datatype screen =
  Loading_screen | Upload_screen | Webcam_screen | Analysis_screen | Matching_screen
  | Reveal_screen | Error_screen

datatype action =
    CameraStart
  | CameraStop
  | CapturePhoto
  | ScreenSwitch screen screen
  | AlertShown string

text \<open>
  The application and, of the platform, what its handlers wait for and hold: the number of
  \<open>getUserMedia\<close> calls not answered yet, and the streams that \<open>getUserMedia\<close> has handed
  out and whose tracks have not been stopped. \<open>camera.stream\<close> refers to at most one of
  them.
\<close>

record app =
  app_camera :: camera
  pending_starts :: nat
  live_streams :: "nat set"
  active :: "screen set"
  takePhotoBtn_disabled :: bool
  app_log :: "action list"

definition act :: "action \<Rightarrow> app \<Rightarrow> app" where
  "act a s = s\<lparr>app_log := app_log s @ [a]\<rparr>"

text \<open>\<open>Animation.switchScreen(currentScreenId, nextScreenId)\<close>: the class is taken from
  the one element and given to the other, whether or not the first had it.\<close>

definition switchScreen :: "screen \<Rightarrow> screen \<Rightarrow> app \<Rightarrow> app" where
  "switchScreen currentScreen nextScreen s =
     act (ScreenSwitch currentScreen nextScreen)
       (s\<lparr>active := insert nextScreen (active s - {currentScreen})\<rparr>)"

text \<open>
  \<open>handleWebcamClick()\<close> calls \<open>Camera.start()\<close>, which calls \<open>getUserMedia\<close> and waits.
  Nothing keeps the button from being clicked again while it waits: the upload screen is
  still the active one, and \<open>start()\<close> looks neither at \<open>this.stream\<close> nor at a call
  under way.
\<close>

definition handleWebcamClick :: "app \<Rightarrow> app" where
  "handleWebcamClick s = act CameraStart (s\<lparr>pending_starts := pending_starts s + 1\<rparr>)"

text \<open>The rest of \<open>Camera.start()\<close>, once \<open>getUserMedia\<close> has answered with a stream or
  has failed: the stream is assigned to \<open>this.stream\<close>, over whatever was there, and
  \<open>true\<close> is returned; on failure the user is alerted and \<open>false\<close> is returned.\<close>

definition start :: "nat option \<Rightarrow> camera \<Rightarrow> camera \<times> bool" where
  "start granted c = (case granted of Some st \<Rightarrow> (c\<lparr>stream := Some st\<rparr>, True) | None \<Rightarrow> (c, False))"

text \<open>\<open>getUserMedia\<close> answers the oldest call that waits, and \<open>handleWebcamClick\<close>
  goes on: with a stream it switches to the webcam screen.\<close>

definition getUserMedia_answers :: "nat option \<Rightarrow> app \<Rightarrow> app" where
  "getUserMedia_answers granted s =
     (if pending_starts s = 0 then s
      else
        (let (c, success) = start granted (app_camera s);
             s = s\<lparr>pending_starts := pending_starts s - 1, app_camera := c,
                   live_streams := (case granted of Some st \<Rightarrow> insert st (live_streams s)
                                    | None \<Rightarrow> live_streams s)\<rparr>
         in if success then switchScreen Upload_screen Webcam_screen s
            else act (AlertShown ''Unable to access your webcam. Please ensure you have granted camera permissions.'') s))"

text \<open>\<open>this.camera.stop()\<close>: the tracks of \<open>camera.stream\<close> are stopped, if it is not
  \<open>null\<close>, and it is set to \<open>null\<close>. No other stream is touched.\<close>

definition camera_stop :: "app \<Rightarrow> app" where
  "camera_stop s =
     act CameraStop
       (s\<lparr>live_streams := live_streams s -
                (case stream (app_camera s) of Some st \<Rightarrow> {st} | None \<Rightarrow> {}),
          app_camera := stop (app_camera s)\<rparr>)"

text \<open>
  \<open>processImage(image)\<close>, as far as the screens go. The detection finds a face or not, or
  something in the processing throws; the exception is the second component, for the
  caller's \<open>catch\<close>. With a face the landmark reveal, the matching and the reveal follow.
\<close>

datatype process_outcome = ProcessThrows | NoFace | FaceFound

definition showError :: "app \<Rightarrow> app" where
  "showError s = switchScreen Analysis_screen Error_screen s"

definition processImage :: "process_outcome \<Rightarrow> app \<Rightarrow> app \<times> bool" where
  "processImage outcome s =
     (let s = switchScreen Upload_screen Analysis_screen s;
          s = switchScreen Webcam_screen Analysis_screen s
      in case outcome of
           ProcessThrows \<Rightarrow> (s, True)
         | NoFace \<Rightarrow> (showError s, False)
         | FaceFound \<Rightarrow>
             (switchScreen Matching_screen Reveal_screen
                (switchScreen Analysis_screen Matching_screen s), False))"

text \<open>
  \<open>handleTakePhoto()\<close>. What can happen inside its \<open>try\<close>: \<open>capturePhoto()\<close> is
  rejected; or it gives a blob, the camera is stopped, and then the image fails to load
  from the blob, or it loads and is processed. Every exception ends in the \<open>catch\<close>,
  which alerts; the \<open>finally\<close> enables the button again.
\<close>

datatype photo_outcome = CaptureRejects | ImageLoadFails | Processed process_outcome

definition handleTakePhoto :: "photo_outcome \<Rightarrow> app \<Rightarrow> app" where
  "handleTakePhoto outcome s =
     (let s = s\<lparr>takePhotoBtn_disabled := True\<rparr>;
          failed = act (AlertShown ''Failed to capture photo. Please try again.'');
          s = (case outcome of
                 CaptureRejects \<Rightarrow> failed s
               | _ \<Rightarrow>
                   (let s = act CapturePhoto (s\<lparr>app_camera := capturePhoto (app_camera s)\<rparr>);
                        s = camera_stop s
                    in case outcome of
                         Processed po \<Rightarrow>
                           (let (s, threw) = processImage po s in if threw then failed s else s)
                       | _ \<Rightarrow> failed s))
      in s\<lparr>takePhotoBtn_disabled := False\<rparr>)"

text \<open>\<open>handleCancelWebcam()\<close>: stop the camera, then go to the upload screen.\<close>

definition handleCancelWebcam :: "app \<Rightarrow> app" where
  "handleCancelWebcam s = switchScreen Webcam_screen Upload_screen (camera_stop s)"

definition handleRetry :: "app \<Rightarrow> app" where
  "handleRetry s = switchScreen Error_screen Upload_screen s"

text \<open>What happens to the application, in the order it happens: the user's clicks, each
  with what the platform makes of it, and the answers of \<open>getUserMedia\<close>.\<close>

datatype app_event =
    WebcamClick
  | MediaAnswers "nat option"
  | TakePhoto photo_outcome
  | CancelWebcam
  | Retry

definition handle :: "app_event \<Rightarrow> app \<Rightarrow> app" where
  "handle e s =
     (case e of
        WebcamClick \<Rightarrow> handleWebcamClick s
      | MediaAnswers granted \<Rightarrow> getUserMedia_answers granted s
      | TakePhoto outcome \<Rightarrow> handleTakePhoto outcome s
      | CancelWebcam \<Rightarrow> handleCancelWebcam s
      | Retry \<Rightarrow> handleRetry s)"

fun run_events :: "app_event list \<Rightarrow> app \<Rightarrow> app" where
  "run_events [] s = s"
| "run_events (e # es) s = run_events es (handle e s)"

text \<open>The application when the upload screen first appears: no stream, no call under way,
  both sounds loaded.\<close>

definition app0 :: app where
  "app0 = \<lparr>app_camera = camera0\<lparr>stream := None\<rparr>, pending_starts = 0, live_streams = {},
           active = {Upload_screen}, takePhotoBtn_disabled = False, app_log = []\<rparr>"

subsection \<open>Sample runs\<close>

text \<open>One click on the webcam button, and two clicks before \<open>getUserMedia\<close> has answered
  the first; the streams handed out are 1 and 2.\<close>

definition one_click :: "app_event list" where
  "one_click = [WebcamClick, MediaAnswers (Some 1)]"

definition two_clicks :: "app_event list" where
  "two_clicks = [WebcamClick, WebcamClick, MediaAnswers (Some 1), MediaAnswers (Some 2)]"

section \<open>Proofs: the shuffle and the comparison animation\<close>

text \<open>The recursive equations are unfolded by hand, one step at a time.\<close>

declare shuffle_loop.simps [simp del]
declare run_interval.simps [simp del]

subsection \<open>The shuffle keeps the length, counts its draws and permutes\<close>

lemma shuffle_loop_length: "length (fst (shuffle_loop rnd pos i xs)) = length xs"
proof (induction rnd pos i xs rule: shuffle_loop.induct)
  case (1 rnd pos i shuffled)
  show ?case
  proof (cases "i > 0")
    case True
    with "1" show ?thesis by (subst shuffle_loop.simps) (simp add: Let_def)
  next
    case False
    then show ?thesis by (subst shuffle_loop.simps) simp
  qed
qed

lemma shuffle_loop_pos: "snd (shuffle_loop rnd pos i xs) = pos + nat i"
proof (induction rnd pos i xs rule: shuffle_loop.induct)
  case (1 rnd pos i shuffled)
  show ?case
  proof (cases "i > 0")
    case True
    with "1" show ?thesis by (subst shuffle_loop.simps) (simp add: Let_def nat_diff_distrib)
  next
    case False
    then show ?thesis by (subst shuffle_loop.simps) simp
  qed
qed

lemma draw_index_range:
  assumes "0 \<le> (r::real)" "r < 1" "0 < (i::int)"
  shows "0 \<le> \<lfloor>r * (of_int i + 1)\<rfloor>" "\<lfloor>r * (of_int i + 1)\<rfloor> \<le> i"
proof -
  show "0 \<le> \<lfloor>r * (of_int i + 1)\<rfloor>" using assms by simp
  have "r * (of_int i + 1) < of_int i + 1" using assms by simp
  then show "\<lfloor>r * (of_int i + 1)\<rfloor> \<le> i" by (simp add: floor_le_iff)
qed

lemma shuffle_loop_mset:
  "\<forall>k. 0 \<le> rnd k \<and> rnd k < 1 \<Longrightarrow> i < int (length xs) \<Longrightarrow>
     mset (fst (shuffle_loop rnd pos i xs)) = mset xs"
proof (induction rnd pos i xs rule: shuffle_loop.induct)
  case (1 rnd pos i shuffled)
  show ?case
  proof (cases "i > 0")
    case True
    define j where "j = \<lfloor>rnd pos * (of_int i + 1)\<rfloor>"
    have j: "0 \<le> j" "j \<le> i"
      using draw_index_range[of "rnd pos" i] "1.prems"(1) True by (simp_all add: j_def)
    have ni: "nat i < length shuffled" using "1.prems"(2) True by simp
    have nj: "nat j < length shuffled" using j ni by simp
    let ?sw = "shuffled[nat i := shuffled ! nat j, nat j := shuffled ! nat i]"
    have sw: "mset ?sw = mset shuffled" using mset_swap[OF nj ni] .
    have "mset (fst (shuffle_loop rnd (pos + 1) (i - 1) ?sw)) = mset ?sw"
      using "1.IH"[OF True refl] "1.prems" True by (simp add: j_def)
    then show ?thesis using True sw by (subst shuffle_loop.simps) (simp add: Let_def j_def)
  next
    case False
    then show ?thesis by (subst shuffle_loop.simps) simp
  qed
qed

subsection \<open>The interval runs to \<open>switchCount\<close> firings\<close>

lemma on_interval_step:
  assumes "after_switches rnd sh n img0 pos0 c s" "c < n"
  shows "after_switches rnd sh n img0 pos0 (Suc c)
           (on_interval rnd sh n (s\<lparr>clock := clock s + switchInterval\<rparr>))"
proof -
  have img: "sh = [] \<Longrightarrow> js_index sh (js_mod c (length sh)) = None"
    by (simp add: js_index_def js_mod_def)
  show ?thesis
    using assms
    by (cases "sh = []")
       (auto simp: after_switches_def on_interval_def Let_def switch_at_def js_index_def js_mod_def)
qed

lemma run_interval_closed:
  "after_switches rnd sh n img0 pos0 c s \<Longrightarrow> c < n \<Longrightarrow>
     after_switches rnd sh n img0 pos0 n (run_interval rnd sh n s)"
proof (induction "n - c" arbitrary: c s)
  case 0
  then show ?case by simp
next
  case (Suc d)
  let ?s' = "on_interval rnd sh n (s\<lparr>clock := clock s + switchInterval\<rparr>)"
  have step: "after_switches rnd sh n img0 pos0 (Suc c) ?s'"
    using on_interval_step[OF Suc.prems] .
  show ?case
  proof (cases "Suc c = n")
    case True
    then have "intervalCleared ?s'" using step by (simp add: after_switches_def)
    then have "run_interval rnd sh n s = ?s'"
      by (subst run_interval.simps) (simp add: Let_def)
    then show ?thesis using step True by simp
  next
    case False
    then have lt: "Suc c < n" using Suc.prems by simp
    then have "\<not> intervalCleared ?s'" using step by (simp add: after_switches_def)
    then have "run_interval rnd sh n s = run_interval rnd sh n ?s'"
      by (subst run_interval.simps) (simp add: Let_def)
    moreover have "after_switches rnd sh n img0 pos0 n (run_interval rnd sh n ?s')"
      using Suc.hyps(1)[OF _ step lt] Suc.hyps(2) by simp
    ultimately show ?thesis by simp
  qed
qed

lemma percentage_range:
  assumes "0 \<le> (r::real)" "r < 1"
  shows "20 \<le> \<lfloor>r * 41\<rfloor> + 20" "\<lfloor>r * 41\<rfloor> + 20 \<le> 60"
proof -
  have "0 \<le> \<lfloor>r * 41\<rfloor>" using assms by simp
  then show "20 \<le> \<lfloor>r * 41\<rfloor> + 20" by simp
  have "r * 41 < 41" using assms by simp
  then have "\<lfloor>r * 41\<rfloor> \<le> 40" by (simp add: floor_le_iff)
  then show "\<lfloor>r * 41\<rfloor> + 20 \<le> 60" by simp
qed

lemma shuffleArray_length: "length (fst (shuffleArray rnd pos xs)) = length xs"
  by (simp add: shuffleArray_def shuffle_loop_length)

lemma shuffleArray_pos: "snd (shuffleArray rnd pos xs) = pos + (length xs - 1)"
  by (simp add: shuffleArray_def shuffle_loop_pos nat_diff_distrib)

lemma shuffleArray_mset:
  "\<forall>k. 0 \<le> rnd k \<and> rnd k < 1 \<Longrightarrow> mset (fst (shuffleArray rnd pos xs)) = mset xs"
  by (simp add: shuffleArray_def shuffle_loop_mset)

lemma animateMatching_closed:
  assumes "0 < duration div switchInterval"
  shows "after_switches rnd (fst (shuffleArray rnd 0 cs)) (duration div switchInterval) img0
           (snd (shuffleArray rnd 0 cs)) (duration div switchInterval)
           (animateMatching rnd img0 cs duration)"
  unfolding animateMatching_def Let_def
  by (rule run_interval_closed) (use assms in \<open>simp_all add: after_switches_def\<close>)

lemma switches_5000:
  "switches (animateMatching rnd img0 cs 5000) =
     map (switch_at rnd (fst (shuffleArray rnd 0 cs)) 25 img0 (snd (shuffleArray rnd 0 cs))) [0..<25]"
  using animateMatching_closed[of 5000 rnd cs img0]
  by (simp add: after_switches_def switchInterval_def)

lemma final_5000:
  "currentSwitch (animateMatching rnd img0 cs 5000) = 25 \<and>
   clock (animateMatching rnd img0 cs 5000) = 5000 \<and>
   resolved (animateMatching rnd img0 cs 5000) \<and>
   intervalCleared (animateMatching rnd img0 cs 5000)"
  using animateMatching_closed[of 5000 rnd cs img0]
  by (simp add: after_switches_def switchInterval_def)

text \<open>
  \<^bold>\<open>C1.\<close> A run of \<open>animateMatching\<close> with duration 5000 ms over a non-empty pool fires
  exactly 25 switches, at 200, 400, ..., 5000 ms. The \<open>k\<close>-th switch (from 0) shows the
  element at index \<open>k mod n\<close> of the one shuffle made before the first switch, and a
  percentage \<open>\<lfloor>r * 41\<rfloor> + 20\<close> computed from a draw \<open>r\<close> of its own (the shuffle used the
  draws before \<open>first_draw\<close>), which lies in \<open>[20, 60]\<close>. The promise is resolved by the
  25th switch and by no earlier one.
\<close>

theorem animateMatching_switches:
  assumes pool: "characterImages \<noteq> []" and draws: "\<forall>k. 0 \<le> rnd k \<and> rnd k < 1"
  shows "let r = animateMatching rnd img0 characterImages 5000;
             shuffled = fst (shuffleArray rnd 0 characterImages);
             first_draw = snd (shuffleArray rnd 0 characterImages);
             n = length characterImages
         in length (switches r) = 25 \<and> currentSwitch r = 25 \<and>
            (\<forall>k<25. switch_character (switches r ! k) = Some (shuffled ! (k mod n)) \<and>
                     switch_src (switches r ! k) = src (shuffled ! (k mod n)) \<and>
                     switch_percentage (switches r ! k) = \<lfloor>rnd (first_draw + k) * 41\<rfloor> + 20 \<and>
                     20 \<le> switch_percentage (switches r ! k) \<and>
                     switch_percentage (switches r ! k) \<le> 60 \<and>
                     switch_time (switches r ! k) = 200 * (k + 1) \<and>
                     switch_resolved (switches r ! k) = (k = 24)) \<and>
            length shuffled = n \<and> first_draw = n - 1 \<and>
            resolved r \<and> intervalCleared r \<and> clock r = 5000"
proof -
  let ?sh = "fst (shuffleArray rnd 0 characterImages)"
  let ?n = "length characterImages"
  have len: "length ?sh = ?n" by (rule shuffleArray_length)
  have pos: "0 < ?n" using pool by simp
  have idx: "js_index ?sh (js_mod k (length ?sh)) = Some (?sh ! (k mod ?n))" for k
    using pos by (simp add: js_index_def js_mod_def len)
  have each: "switch_character (switches (animateMatching rnd img0 characterImages 5000) ! k) = Some (?sh ! (k mod ?n)) \<and>
      switch_src (switches (animateMatching rnd img0 characterImages 5000) ! k) = src (?sh ! (k mod ?n)) \<and>
      switch_percentage (switches (animateMatching rnd img0 characterImages 5000) ! k) =
        \<lfloor>rnd (snd (shuffleArray rnd 0 characterImages) + k) * 41\<rfloor> + 20 \<and>
      20 \<le> switch_percentage (switches (animateMatching rnd img0 characterImages 5000) ! k) \<and>
      switch_percentage (switches (animateMatching rnd img0 characterImages 5000) ! k) \<le> 60 \<and>
      switch_time (switches (animateMatching rnd img0 characterImages 5000) ! k) = 200 * (k + 1) \<and>
      switch_resolved (switches (animateMatching rnd img0 characterImages 5000) ! k) = (k = 24)"
    if "k < 25" for k
  proof -
    have nth: "switches (animateMatching rnd img0 characterImages 5000) ! k =
        switch_at rnd ?sh 25 img0 (snd (shuffleArray rnd 0 characterImages)) k"
      using that by (simp add: switches_5000)
    have r: "0 \<le> rnd (snd (shuffleArray rnd 0 characterImages) + k)"
            "rnd (snd (shuffleArray rnd 0 characterImages) + k) < 1"
      using draws by simp_all
    show ?thesis
      unfolding nth using percentage_range[OF r] that
      by (auto simp: switch_at_def idx switchInterval_def)
  qed
  have cnt: "length (switches (animateMatching rnd img0 characterImages 5000)) = 25"
    by (simp add: switches_5000)
  have fd: "snd (shuffleArray rnd 0 characterImages) = ?n - 1"
    by (simp add: shuffleArray_pos)
  show ?thesis
    unfolding Let_def
    using each cnt fd final_5000[of rnd img0 characterImages] len
    by blast
qed

theorem animateMatching_switches_witness:
  "pool3 \<noteq> [] \<and> (\<forall>k. 0 \<le> rnd7 k \<and> rnd7 k < 1) \<and>
   length (switches (animateMatching rnd7 ''x'' pool3 5000)) = 25 \<and>
   switch_src (switches (animateMatching rnd7 ''x'' pool3 5000) ! 4) = ''b.jpg'' \<and>
   switch_percentage (switches (animateMatching rnd7 ''x'' pool3 5000) ! 4) = 55 \<and>
   switch_time (switches (animateMatching rnd7 ''x'' pool3 5000) ! 4) = 1000 \<and>
   resolved (animateMatching rnd7 ''x'' pool3 5000)"
proof -
  have h1: "pool3 \<noteq> []" by (simp add: pool3_def)
  have h2: "\<forall>k. 0 \<le> rnd7 k \<and> rnd7 k < 1" by (simp add: rnd7_def)
  have sh: "shuffleArray rnd7 0 pool3 =
      ([\<lparr>src = ''c.jpg''\<rparr>, \<lparr>src = ''b.jpg''\<rparr>, \<lparr>src = ''a.jpg''\<rparr>], 2)"
    by code_simp
  have r6: "\<lfloor>rnd7 6 * 41\<rfloor> = 35" by (simp add: rnd7_def)
  have n: "length pool3 = 3" by (simp add: pool3_def)
  note main = animateMatching_switches[OF h1 h2, of "''x''", unfolded Let_def sh n fst_conv snd_conv]
  from main have at4: "switch_src (switches (animateMatching rnd7 ''x'' pool3 5000) ! 4) = ''b.jpg'' \<and>
      switch_percentage (switches (animateMatching rnd7 ''x'' pool3 5000) ! 4) = 55 \<and>
      switch_time (switches (animateMatching rnd7 ''x'' pool3 5000) ! 4) = 1000"
    using r6 by simp
  show ?thesis using main h1 h2 at4 by simp
qed

lemma shuffleArray_Nil: "shuffleArray rnd pos [] = ([], pos)"
  by (simp add: shuffleArray_def shuffle_loop.simps)

text \<open>
  \<^bold>\<open>C8.\<close> For a pool of 19 candidates and a 5000 ms run: the shuffled sequence is a
  permutation of the pool (equal as multisets, so each candidate occurs in it as often as
  in the pool: exactly once when the pool has no duplicates), the first 19 of the 25
  switches show the shuffled sequence in order, and so every candidate of the pool is shown
  by some switch.
\<close>

theorem matching_run_covers_pool:
  assumes size: "length characterImages = 19" and draws: "\<forall>k. 0 \<le> rnd k \<and> rnd k < 1"
  shows "let r = animateMatching rnd img0 characterImages 5000;
             shuffled = fst (shuffleArray rnd 0 characterImages)
         in mset shuffled = mset characterImages \<and>
            (distinct characterImages \<longrightarrow> distinct shuffled) \<and>
            length (switches r) = 25 \<and>
            map switch_character (take 19 (switches r)) = map Some shuffled \<and>
            (\<forall>c \<in> set characterImages. \<exists>k<25. switch_character (switches r ! k) = Some c)"
proof -
  let ?r = "animateMatching rnd img0 characterImages 5000"
  let ?sh = "fst (shuffleArray rnd 0 characterImages)"
  have perm: "mset ?sh = mset characterImages" using draws by (rule shuffleArray_mset)
  have len: "length ?sh = 19" using size by (simp add: shuffleArray_length)
  have cnt: "length (switches ?r) = 25" by (simp add: switches_5000)
  have at: "switch_character (switches ?r ! k) = Some (?sh ! k)" if "k < 19" for k
    using that len by (simp add: switches_5000 switch_at_def js_index_def js_mod_def)
  have order: "map switch_character (take 19 (switches ?r)) = map Some ?sh"
  proof (rule nth_equalityI)
    show "length (map switch_character (take 19 (switches ?r))) = length (map Some ?sh)"
      using cnt len by simp
  next
    fix i assume "i < length (map switch_character (take 19 (switches ?r)))"
    then have i: "i < 19" using cnt by simp
    then show "map switch_character (take 19 (switches ?r)) ! i = map Some ?sh ! i"
      using at[OF i] cnt len by simp
  qed
  have cover: "\<exists>k<25. switch_character (switches ?r ! k) = Some c" if "c \<in> set characterImages" for c
  proof -
    have "c \<in> set ?sh" using that perm by (metis mset_eq_setD)
    then obtain i where i: "i < 19" "?sh ! i = c" using len by (metis in_set_conv_nth)
    then have "switch_character (switches ?r ! i) = Some c" using at by simp
    moreover have "i < 25" using i by simp
    ultimately show ?thesis by blast
  qed
  have dist: "distinct characterImages \<longrightarrow> distinct ?sh"
    using perm by (metis mset_eq_imp_distinct_iff)
  show ?thesis unfolding Let_def using perm dist cnt order cover by blast
qed

theorem matching_run_covers_pool_witness:
  "length pool19 = 19 \<and> (\<forall>k. 0 \<le> rnd7 k \<and> rnd7 k < 1) \<and>
   mset (fst (shuffleArray rnd7 0 pool19)) = mset pool19 \<and>
   length (switches (animateMatching rnd7 ''x'' pool19 5000)) = 25 \<and>
   (\<exists>k<25. switch_character (switches (animateMatching rnd7 ''x'' pool19 5000) ! k) =
      Some \<lparr>src = ''assets/images/characters/joi.avif''\<rparr>)"
proof -
  have h1: "length pool19 = 19" by (simp add: pool19_def)
  have h2: "\<forall>k. 0 \<le> rnd7 k \<and> rnd7 k < 1" by (simp add: rnd7_def)
  have joi: "\<lparr>src = ''assets/images/characters/joi.avif''\<rparr> \<in> set pool19"
    by (simp add: pool19_def)
  note main = matching_run_covers_pool[OF h1 h2, of "''x''", unfolded Let_def]
  show ?thesis using main h1 h2 joi by blast
qed

text \<open>
  \<^bold>\<open>C10.\<close> Over an empty pool the index is \<open>NaN\<close> and the candidate read is
  \<open>undefined\<close> at each of the 25 switches, so the image keeps the \<open>src\<close> it had; the
  percentage is still written from a fresh draw at every switch, and the run is resolved
  by the 25th switch, at 5000 ms.
\<close>

theorem animateMatching_empty_pool:
  "map switch_character (switches (animateMatching rnd img0 [] 5000)) = replicate 25 None \<and>
   map switch_src (switches (animateMatching rnd img0 [] 5000)) = replicate 25 img0 \<and>
   map switch_percentage (switches (animateMatching rnd img0 [] 5000)) =
     map (\<lambda>k. \<lfloor>rnd k * 41\<rfloor> + 20) [0..<25] \<and>
   map switch_time (switches (animateMatching rnd img0 [] 5000)) =
     map (\<lambda>k. 200 * (k + 1)) [0..<25] \<and>
   map switch_resolved (switches (animateMatching rnd img0 [] 5000)) = replicate 24 False @ [True] \<and>
   characterImg_src (animateMatching rnd img0 [] 5000) = img0 \<and>
   currentSwitch (animateMatching rnd img0 [] 5000) = 25 \<and>
   resolved (animateMatching rnd img0 [] 5000) \<and>
   intervalCleared (animateMatching rnd img0 [] 5000) \<and>
   clock (animateMatching rnd img0 [] 5000) = 5000 \<and>
   js_mod currentSwitch0 (length ([] :: character list)) = None \<and>
   js_index ([] :: character list) None = None"
proof -
  let ?r = "animateMatching rnd img0 [] 5000"
  have sw: "switches ?r = map (switch_at rnd [] 25 img0 0) [0..<25]"
    by (simp add: switches_5000 shuffleArray_Nil)
  have none: "js_index ([] :: character list) (js_mod k 0) = None" for k
    by (simp add: js_index_def js_mod_def)
  have c: "map switch_character (switches ?r) = replicate 25 None"
    unfolding sw by (simp add: switch_at_def none comp_def map_replicate_const del: upt.simps upt_rec_numeral)
  have s: "map switch_src (switches ?r) = replicate 25 img0"
    unfolding sw by (simp add: switch_at_def none comp_def map_replicate_const del: upt.simps upt_rec_numeral)
  have p: "map switch_percentage (switches ?r) = map (\<lambda>k. \<lfloor>rnd k * 41\<rfloor> + 20) [0..<25]"
    unfolding sw by (simp add: switch_at_def comp_def del: upt.simps upt_rec_numeral)
  have t: "map switch_time (switches ?r) = map (\<lambda>k. 200 * (k + 1)) [0..<25]"
    unfolding sw by (simp add: switch_at_def comp_def switchInterval_def del: upt.simps upt_rec_numeral)
  have "map switch_resolved (switches ?r) = map (\<lambda>k. 25 \<le> k + 1) [0..<25]"
    unfolding sw by (simp add: switch_at_def comp_def del: upt.simps upt_rec_numeral)
  also have "\<dots> = replicate 24 False @ [True]"
    by code_simp
  finally have d: "map switch_resolved (switches ?r) = replicate 24 False @ [True]" .
  have img: "characterImg_src ?r = img0"
    using animateMatching_closed[of 5000 rnd "[]" img0]
    by (simp add: after_switches_def switchInterval_def shuffleArray_Nil)
  show ?thesis
    using c s p t d img final_5000[of rnd img0 "[]"]
    by (simp add: js_mod_def js_index_def)
qed

section \<open>Proofs: the reveal timeline\<close>









section \<open>Proofs: the countdown\<close>

declare countdownInterval.simps [simp del]

lemma camera_emit_fields [simp]:
  "camera_clock (camera_emit e s) = camera_clock s"
  "camera_log (camera_emit e s) = camera_log s @ [(camera_clock s, e)]"
  "shutterSound (camera_emit e s) = shutterSound s"
  "timerBeepSound (camera_emit e s) = timerBeepSound s"
  "videoWidth (camera_emit e s) = videoWidth s"
  "videoHeight (camera_emit e s) = videoHeight s"
  "stream (camera_emit e s) = stream s"
  by (simp_all add: camera_emit_def)

lemma playSound_fields [simp]:
  "camera_clock (playSound a s) = camera_clock s"
  "camera_log (playSound a s) = camera_log s @ map (\<lambda>x. (camera_clock s, Play x)) (play_calls a)"
  "shutterSound (playSound a s) = shutterSound s"
  "timerBeepSound (playSound a s) = timerBeepSound s"
  "videoWidth (playSound a s) = videoWidth s"
  "videoHeight (playSound a s) = videoHeight s"
  "stream (playSound a s) = stream s"
  by (auto simp: playSound_def play_calls_def camera_emit_def camera_warn_def Let_def
           split: option.splits play_outcome.splits)

lemma countdownInterval_3 [simp]:
  "camera_log (countdownInterval 3 s) =
     camera_log s @
     [(camera_clock s + 1000, CountdownNumber 3),
      (camera_clock s + 2000, CountdownNumber 2),
      (camera_clock s + 3000, CountdownNumber 1),
      (camera_clock s + 4000, CountdownNumber 0),
      (camera_clock s + 4000, OverlayActive False)]"
  "camera_clock (countdownInterval 3 s) = camera_clock s + 4000"
  "shutterSound (countdownInterval 3 s) = shutterSound s"
  "timerBeepSound (countdownInterval 3 s) = timerBeepSound s"
  "videoWidth (countdownInterval 3 s) = videoWidth s"
  "videoHeight (countdownInterval 3 s) = videoHeight s"
  "stream (countdownInterval 3 s) = stream s"
  by (subst countdownInterval.simps, simp add: Let_def,
      subst countdownInterval.simps, simp add: Let_def,
      subst countdownInterval.simps, simp add: Let_def,
      subst countdownInterval.simps, simp add: Let_def)+

text \<open>
  \<^bold>\<open>C2.\<close> What \<open>capturePhoto\<close> does, from any camera state: the overlay is shown and
  the beep is played once, at the start; the interval callback then fires four times, writing
  3, 2, 1 and 0 at 1000, 2000, 3000 and 4000 ms (it stops when \<open>count\<close> is negative after
  the decrement, that is after writing 0); the shutter sound and the frame follow at
  4000 ms, not at 3000 ms.
\<close>

theorem capturePhoto_timeline:
  "camera_log (capturePhoto s) =
     camera_log s @
     [(camera_clock s, OverlayActive True)] @
     map (\<lambda>x. (camera_clock s, Play x)) (play_calls (timerBeepSound s)) @
     [(camera_clock s + 1000, CountdownNumber 3),
      (camera_clock s + 2000, CountdownNumber 2),
      (camera_clock s + 3000, CountdownNumber 1),
      (camera_clock s + 4000, CountdownNumber 0),
      (camera_clock s + 4000, OverlayActive False)] @
     map (\<lambda>x. (camera_clock s + 4000, Play x)) (play_calls (shutterSound s)) @
     [(camera_clock s + 4000, DrawVideoFrame (videoWidth s) (videoHeight s)),
      (camera_clock s + 4000, ToBlob)]"
  by (simp add: capturePhoto_def startCountdown_def Let_def
        camera_emit_fields playSound_fields countdownInterval_3)

section \<open>Proofs: the face crop\<close>

lemma set_dimension_nonneg:
  assumes "0 \<le> v" "v < 2147483648"
  shows "set_dimension dflt v = nat \<lfloor>v\<rfloor>"
proof -
  define k where "k = \<lfloor>v\<rfloor>"
  have lo: "0 \<le> k" using assms(1) by (simp add: k_def)
  have hi: "k < 2147483648" using assms(2) unfolding k_def by (simp add: floor_less_iff)
  have m: "k mod 4294967296 = k" using lo hi by simp
  have u: "to_unsigned_long v = nat k"
    using assms(1) m by (simp add: to_unsigned_long_def k_def)
  have "nat k \<le> 2147483647" using lo hi by linarith
  then show ?thesis unfolding set_dimension_def Let_def u k_def[symmetric] by simp
qed

lemma set_dimension_negative:
  assumes "- 2147483648 \<le> v" "v \<le> - 1"
  shows "set_dimension dflt v = dflt"
proof -
  define k where "k = \<lceil>v\<rceil>"
  have hi: "k \<le> - 1" using assms(2) unfolding k_def by (simp add: ceiling_le_iff)
  have lo: "- 2147483648 \<le> k" using assms(1) unfolding k_def by (simp add: le_ceiling_iff)
  have "(k + 4294967296) mod 4294967296 = k + 4294967296"
    by (rule mod_pos_pos_trivial) (use lo hi in linarith)+
  moreover have "(k + 4294967296) mod 4294967296 = k mod 4294967296"
    by (rule mod_add_self2)
  ultimately have m: "k mod 4294967296 = k + 4294967296" by (simp only:)
  have neg: "v < 0" using assms(2) by simp
  have u: "to_unsigned_long v = nat (k + 4294967296)"
    using neg m by (simp add: to_unsigned_long_def k_def)
  have "\<not> nat (k + 4294967296) \<le> 2147483647" using lo by linarith
  then show ?thesis unfolding set_dimension_def Let_def u by simp
qed

text \<open>
  \<^bold>\<open>C3\<close> as worded fails, twice. For a 100 x 300 source and a face box of 20 x 100 at
  (10, 60), padded by 50: the clamped crop is 100 x 200 at (0, 10), the surface is 200 x 200,
  the crop is centred 50 from its left edge, and the recorded offset is \<open>(-50, 10)\<close>: it is
  negative, and offset plus side is 150, beyond the source width 100. And for a box of
  20 x 100.5 there, the larger padded-and-clamped dimension is 200.5, while the surface is
  200 x 200: a canvas has whole dimensions.
\<close>

theorem cropToFace_offset_counterexample:
  "\<not> (0 \<le> off_x (cropped_offset (cropToFace source_100x300 box_20x100 50)) \<and>
      0 \<le> off_y (cropped_offset (cropToFace source_100x300 box_20x100 50)) \<and>
      off_x (cropped_offset (cropToFace source_100x300 box_20x100 50)) +
        real (canvas_width (cropped_canvas (cropToFace source_100x300 box_20x100 50)))
        \<le> real (canvas_width source_100x300) \<and>
      off_y (cropped_offset (cropToFace source_100x300 box_20x100 50)) +
        real (canvas_height (cropped_canvas (cropToFace source_100x300 box_20x100 50)))
        \<le> real (canvas_height source_100x300)) \<and>
   cropped_offset (cropToFace source_100x300 box_20x100 50) = \<lparr>off_x = - 50, off_y = 10\<rparr> \<and>
   canvas_width (cropped_canvas (cropToFace source_100x300 box_20x100 50)) = 200 \<and>
   canvas_height (cropped_canvas (cropToFace source_100x300 box_20x100 50)) = 200 \<and>
   canvas_width source_100x300 = 100 \<and> canvas_height source_100x300 = 300 \<and>
   max (min (real (canvas_width source_100x300) - max 0 (box_x box_fractional - 50))
          (box_width box_fractional + 50 * 2))
       (min (real (canvas_height source_100x300) - max 0 (box_y box_fractional - 50))
          (box_height box_fractional + 50 * 2)) = 401 / 2 \<and>
   canvas_width (cropped_canvas (cropToFace source_100x300 box_fractional 50)) = 200 \<and>
   canvas_height (cropped_canvas (cropToFace source_100x300 box_fractional 50)) = 200"
proof -
  have d: "set_dimension dflt 200 = 200" "set_dimension dflt (401 / 2) = 200" for dflt
    by (simp_all add: set_dimension_nonneg)
  show ?thesis
    by (simp add: cropToFace_def source_100x300_def box_20x100_def box_fractional_def Let_def d)
qed

text \<open>
  \<^bold>\<open>C3\<close> (amended). For every source canvas, box and padding, let \<open>(x, y, width, height)\<close>
  be the padded-and-clamped rectangle and \<open>side\<close> the larger of \<open>width\<close> and \<open>height\<close>. When
  \<open>0 \<le> side < 2^31\<close>, the surface returned by \<open>cropToFace\<close> is square and its side is
  \<open>side\<close> rounded down to a whole number; when \<open>side\<close> is negative (from \<open>-1\<close> down to
  \<open>-2^31\<close>) the surface has the default size 300 x 150. The rectangle copied from the source
  lies within the source (\<open>0 \<le> x\<close>, \<open>0 \<le> y\<close>, \<open>x + width\<close> and \<open>y + height\<close> within the
  source's extent); the recorded offset is that rectangle's origin moved back by the centring
  margin \<open>(side - width) / 2\<close>, \<open>(side - height) / 2\<close>, so it is at most the origin, and offset
  plus the clamped width and height stays within the source's extent.
\<close>

theorem cropToFace_square_source_rect:
  "let r = cropToFace canvas box padding;
       x = max 0 (box_x box - padding);
       y = max 0 (box_y box - padding);
       width = min (real (canvas_width canvas) - x) (box_width box + padding * 2);
       height = min (real (canvas_height canvas) - y) (box_height box + padding * 2);
       side = max width height
   in (0 \<le> side \<and> side < 2147483648 \<longrightarrow>
         canvas_width (cropped_canvas r) = nat \<lfloor>side\<rfloor> \<and>
         canvas_height (cropped_canvas r) = nat \<lfloor>side\<rfloor>) \<and>
      (- 2147483648 \<le> side \<and> side \<le> - 1 \<longrightarrow>
         canvas_width (cropped_canvas r) = 300 \<and> canvas_height (cropped_canvas r) = 150) \<and>
      canvas_ops (cropped_canvas r) =
        [FillRect 0 0 side side ''#1e293b'',
         DrawImage x y width height ((side - width) / 2) ((side - height) / 2) width height] \<and>
      0 \<le> x \<and> 0 \<le> y \<and>
      x + width \<le> real (canvas_width canvas) \<and> y + height \<le> real (canvas_height canvas) \<and>
      off_x (cropped_offset r) = x - (side - width) / 2 \<and>
      off_y (cropped_offset r) = y - (side - height) / 2 \<and>
      off_x (cropped_offset r) \<le> x \<and> off_y (cropped_offset r) \<le> y \<and>
      off_x (cropped_offset r) + width \<le> real (canvas_width canvas) \<and>
      off_y (cropped_offset r) + height \<le> real (canvas_height canvas)"
proof -
  define x where "x = max 0 (box_x box - padding)"
  define y where "y = max 0 (box_y box - padding)"
  define width where "width = min (real (canvas_width canvas) - x) (box_width box + padding * 2)"
  define height where "height = min (real (canvas_height canvas) - y) (box_height box + padding * 2)"
  define side where "side = max width height"
  have r: "cropToFace canvas box padding =
      \<lparr>cropped_canvas =
         \<lparr>canvas_width = set_dimension 300 side, canvas_height = set_dimension 150 side,
          canvas_ops = [FillRect 0 0 side side ''#1e293b'',
            DrawImage x y width height ((side - width) / 2) ((side - height) / 2) width height]\<rparr>,
       cropped_offset = \<lparr>off_x = x - (side - width) / 2, off_y = y - (side - height) / 2\<rparr>\<rparr>"
    by (simp add: cropToFace_def Let_def x_def y_def width_def height_def side_def)
  have x0: "0 \<le> x" and y0: "0 \<le> y" by (simp_all add: x_def y_def)
  have xw: "x + width \<le> real (canvas_width canvas)" unfolding width_def by linarith
  have yh: "y + height \<le> real (canvas_height canvas)" unfolding height_def by linarith
  have sw: "width \<le> side" and sh: "height \<le> side" by (simp_all add: side_def)
  have ox: "x - (side - width) / 2 \<le> x" using sw by simp
  have oy: "y - (side - height) / 2 \<le> y" using sh by simp
  have oxw: "x - (side - width) / 2 + width \<le> real (canvas_width canvas)" using ox xw by linarith
  have oyh: "y - (side - height) / 2 + height \<le> real (canvas_height canvas)" using oy yh by linarith
  have sd: "side = max width height" by (simp add: side_def)
  have sq: "0 \<le> side \<and> side < 2147483648 \<longrightarrow>
      set_dimension 300 side = nat \<lfloor>side\<rfloor> \<and> set_dimension 150 side = nat \<lfloor>side\<rfloor>"
    by (simp add: set_dimension_nonneg)
  have ng: "- 2147483648 \<le> side \<and> side \<le> - 1 \<longrightarrow>
      set_dimension 300 side = 300 \<and> set_dimension 150 side = 150"
    by (simp add: set_dimension_negative)
  show ?thesis
    unfolding Let_def x_def[symmetric] y_def[symmetric] width_def[symmetric] height_def[symmetric]
      sd[symmetric]
    using x0 y0 xw yh ox oy oxw oyh sq ng
    by (simp add: r)
qed

theorem cropToFace_square_source_rect_witness:
  "(0::real) \<le> 401 / 2 \<and> (401 / 2 :: real) < 2147483648 \<and>
   canvas_width (cropped_canvas (cropToFace source_100x300 box_fractional 50)) = 200 \<and>
   canvas_height (cropped_canvas (cropToFace source_100x300 box_fractional 50)) = 200 \<and>
   off_x (cropped_offset (cropToFace source_100x300 box_fractional 50)) = - (201 / 4) \<and>
   off_y (cropped_offset (cropToFace source_100x300 box_fractional 50)) = 10 \<and>
   (- 2147483648 :: real) \<le> - 50 \<and> (- 50 :: real) \<le> - 1 \<and>
   canvas_width (cropped_canvas (cropToFace source_100x300 box_outside 50)) = 300 \<and>
   canvas_height (cropped_canvas (cropToFace source_100x300 box_outside 50)) = 150"
  using cropToFace_square_source_rect[of source_100x300 box_fractional 50]
    cropToFace_square_source_rect[of source_100x300 box_outside 50]
  by (simp add: Let_def source_100x300_def box_fractional_def box_outside_def)

section \<open>Proofs: the progressive landmark reveal\<close>

lemma draw_points_closed:
  "landmarks_clock s = c0 + delayBetweenPoints * n \<Longrightarrow>
   landmarks_clock (draw_points ps offset s) = c0 + delayBetweenPoints * (n + length ps) \<and>
   landmarks_log (draw_points ps offset s) =
     landmarks_log s @
     map (\<lambda>(i, p). (c0 + delayBetweenPoints * i, Arc (pt_x p - off_x offset) (pt_y p - off_y offset) 3 True))
       (enumerate n ps)"
proof (induction ps arbitrary: n s)
  case Nil
  then show ?case by simp
next
  case (Cons p ps)
  let ?s = "s\<lparr>landmarks_log := landmarks_log s @
             [(landmarks_clock s, Arc (pt_x p - off_x offset) (pt_y p - off_y offset) 3 True)],
          landmarks_clock := landmarks_clock s + delayBetweenPoints\<rparr>"
  have "landmarks_clock ?s = c0 + delayBetweenPoints * Suc n" using Cons.prems by simp
  from Cons.IH[OF this] show ?case using Cons.prems by simp
qed

lemma enumerate_nth_map:
  "map f (enumerate 0 xs) = map (\<lambda>i. f (i, xs ! i)) [0..<length xs]"
  by (rule nth_equalityI) (simp_all add: nth_enumerate_eq)

lemma slice_nth:
  assumes "b \<le> length xs"
  shows "slice a b xs = map (\<lambda>i. xs ! i) [a..<b]"
proof (rule nth_equalityI)
  show len: "length (slice a b xs) = length (map (\<lambda>i. xs ! i) [a..<b])"
    using assms by (simp add: slice_def)
  fix i assume "i < length (slice a b xs)"
  then have i: "i < b - a" using len by simp
  then have "a + i < length xs" using assms by simp
  then show "slice a b xs ! i = map (\<lambda>i. xs ! i) [a..<b] ! i"
    using i by (simp add: slice_def)
qed

lemma drawPath_through:
  "b \<le> length positions \<Longrightarrow> a + 2 \<le> b \<Longrightarrow>
     drawPath (slice a b positions) offset = [Path False (through positions offset a b)]"
  "b \<le> length positions \<Longrightarrow> a + 2 \<le> b \<Longrightarrow>
     drawClosedPath (slice a b positions) offset = [Path True (through positions offset a b)]"
  by (simp_all add: slice_nth drawPath_def drawClosedPath_def through_def comp_def)

lemma connections_68:
  assumes "length positions = 68"
  shows "drawLandmarkConnections positions offset =
     [Path False (through positions offset 0 17),
      Path False (through positions offset 17 22),
      Path False (through positions offset 22 27),
      Path False (through positions offset 27 31),
      Path False (through positions offset 31 36),
      Path True (through positions offset 36 42),
      Path True (through positions offset 42 48),
      Path True (through positions offset 48 60),
      Path True (through positions offset 60 68)]"
  unfolding drawLandmarkConnections_def using assms by (simp add: drawPath_through)

text \<open>
  \<^bold>\<open>C7.\<close> For 68 landmark positions: point \<open>i\<close> is drawn (radius 3, with the glow) at
  \<open>30 * i\<close> ms, for \<open>i = 0, ..., 67\<close> in order; then, at \<open>68 * 30\<close> ms and in one pass, the
  open paths through the points 0-16, 17-21, 22-26, 27-30, 31-35 and the closed paths through
  36-41, 42-47, 48-59, 60-67; completion is 1000 ms later.
\<close>

theorem animateLandmarksProgressive_68:
  assumes "length positions = 68"
  shows "landmarks_log (animateLandmarksProgressive positions offset) =
     map (\<lambda>i. (30 * i, Arc (pt_x (positions ! i) - off_x offset) (pt_y (positions ! i) - off_y offset) 3 True))
       [0..<68] @
     map (\<lambda>op. (68 * 30, op))
       [Path False (through positions offset 0 17),
        Path False (through positions offset 17 22),
        Path False (through positions offset 22 27),
        Path False (through positions offset 27 31),
        Path False (through positions offset 31 36),
        Path True (through positions offset 36 42),
        Path True (through positions offset 42 48),
        Path True (through positions offset 48 60),
        Path True (through positions offset 60 68)] \<and>
   landmarks_clock (animateLandmarksProgressive positions offset) = 68 * 30 + 1000"
proof -
  let ?s0 = "\<lparr>landmarks_clock = 0, landmarks_log = []\<rparr>"
  have "landmarks_clock ?s0 = 0 + delayBetweenPoints * 0" by simp
  from draw_points_closed[OF this, of positions offset]
  have c: "landmarks_clock (draw_points positions offset ?s0) = 68 * 30"
    and l: "landmarks_log (draw_points positions offset ?s0) =
      map (\<lambda>i. (30 * i, Arc (pt_x (positions ! i) - off_x offset) (pt_y (positions ! i) - off_y offset) 3 True))
       [0..<68]"
    using assms by (simp_all add: delayBetweenPoints_def enumerate_nth_map del: upt.simps)
  show ?thesis
    unfolding animateLandmarksProgressive_def Let_def connections_68[OF assms]
    by (simp add: c l del: upt.simps)
qed

theorem animateLandmarksProgressive_68_witness:
  "length positions68 = 68 \<and>
   landmarks_clock (animateLandmarksProgressive positions68 \<lparr>off_x = 1, off_y = 0\<rparr>) = 3040 \<and>
   length (landmarks_log (animateLandmarksProgressive positions68 \<lparr>off_x = 1, off_y = 0\<rparr>)) = 77 \<and>
   landmarks_log (animateLandmarksProgressive positions68 \<lparr>off_x = 1, off_y = 0\<rparr>) ! 75 =
     (2040, Path True (map (\<lambda>i. (real i - 1, 2 * real i)) [48..<60]))"
proof -
  have h: "length positions68 = 68" by (simp add: positions68_def)
  have nth: "positions68 ! i = \<lparr>pt_x = real i, pt_y = 2 * real i\<rparr>" if "i < 68" for i
    using that by (simp add: positions68_def del: upt.simps)
  have thr: "through positions68 \<lparr>off_x = 1, off_y = 0\<rparr> 48 60 = map (\<lambda>i. (real i - 1, 2 * real i)) [48..<60]"
    unfolding through_def by (rule map_cong) (auto simp: nth shifted_def)
  note main = animateLandmarksProgressive_68[OF h, of "\<lparr>off_x = 1, off_y = 0\<rparr>"]
  have "landmarks_log (animateLandmarksProgressive positions68 \<lparr>off_x = 1, off_y = 0\<rparr>) ! 75 =
     (2040, Path True (through positions68 \<lparr>off_x = 1, off_y = 0\<rparr> 48 60))"
    using main by (simp add: nth_append del: upt.simps)
  then show ?thesis using main h thr by (simp del: upt.simps)
qed

section \<open>Proofs: loading an image from a file\<close>

text \<open>
  \<^bold>\<open>C9.\<close> \<open>loadImageFromFile\<close> rejects every file whose declared type does not start
  with \<open>image/\<close>, rejects every file of an image type that cannot be read or does not
  decode, and resolves with the decoded image for every file of an image type that reads
  and decodes; it resolves only for files of an image type, and always settles.
\<close>

theorem loadImageFromFile_accepts_images_only:
  "(\<not> startsWith (file_type f) ''image/'' \<longrightarrow>
      loadImageFromFile readAsDataURL decode f = Rejected ''File is not an image'') \<and>
   (startsWith (file_type f) ''image/'' \<and> readAsDataURL f = Some url \<and> decode url = None \<longrightarrow>
      loadImageFromFile readAsDataURL decode f = Rejected ''Failed to load image'') \<and>
   (startsWith (file_type f) ''image/'' \<and> readAsDataURL f = None \<longrightarrow>
      loadImageFromFile readAsDataURL decode f = Rejected ''Failed to read file'') \<and>
   (startsWith (file_type f) ''image/'' \<and> readAsDataURL f = Some url \<and> decode url = Some img \<longrightarrow>
      loadImageFromFile readAsDataURL decode f = Resolved img) \<and>
   (loadImageFromFile readAsDataURL decode f = Resolved img \<longrightarrow>
      startsWith (file_type f) ''image/'' \<and> (\<exists>url. readAsDataURL f = Some url \<and> decode url = Some img)) \<and>
   loadImageFromFile readAsDataURL decode f \<noteq> Pending"
  by (auto simp: loadImageFromFile_def split: option.splits if_splits)

theorem loadImageFromFile_accepts_images_only_witness:
  "\<not> startsWith ''text/plain'' ''image/'' \<and>
   loadImageFromFile sample_read sample_decode \<lparr>file_name = ''face.png'', file_type = ''text/plain''\<rparr> =
     Rejected ''File is not an image'' \<and>
   startsWith ''image/png'' ''image/'' \<and>
   sample_read \<lparr>file_name = ''broken.png'', file_type = ''image/png''\<rparr> = Some ''data:image/png,broken.png'' \<and>
   sample_decode ''data:image/png,broken.png'' = None \<and>
   loadImageFromFile sample_read sample_decode \<lparr>file_name = ''broken.png'', file_type = ''image/png''\<rparr> =
     Rejected ''Failed to load image'' \<and>
   sample_read \<lparr>file_name = ''face.png'', file_type = ''image/png''\<rparr> = Some ''data:image/png,face.png'' \<and>
   sample_decode ''data:image/png,face.png'' = Some \<lparr>image_src = ''data:image/png,face.png''\<rparr> \<and>
   loadImageFromFile sample_read sample_decode \<lparr>file_name = ''face.png'', file_type = ''image/png''\<rparr> =
     Resolved \<lparr>image_src = ''data:image/png,face.png''\<rparr>"
proof -
  have t: "\<not> startsWith ''text/plain'' ''image/''" "startsWith ''image/png'' ''image/''"
    by (simp_all add: startsWith_def)
  have r1: "sample_read \<lparr>file_name = ''broken.png'', file_type = ''image/png''\<rparr> = Some ''data:image/png,broken.png''"
    and r2: "sample_read \<lparr>file_name = ''face.png'', file_type = ''image/png''\<rparr> = Some ''data:image/png,face.png''"
    by (simp_all add: sample_read_def)
  have d1: "sample_decode ''data:image/png,broken.png'' = None"
    and d2: "sample_decode ''data:image/png,face.png'' = Some \<lparr>image_src = ''data:image/png,face.png''\<rparr>"
    by (simp_all add: sample_decode_def)
  show ?thesis
    using loadImageFromFile_accepts_images_only[where f = "\<lparr>file_name = ''face.png'', file_type = ''text/plain''\<rparr>"
        and readAsDataURL = sample_read and decode = sample_decode]
      loadImageFromFile_accepts_images_only[where f = "\<lparr>file_name = ''broken.png'', file_type = ''image/png''\<rparr>"
        and readAsDataURL = sample_read and decode = sample_decode and url = "''data:image/png,broken.png''"]
      loadImageFromFile_accepts_images_only[where f = "\<lparr>file_name = ''face.png'', file_type = ''image/png''\<rparr>"
        and readAsDataURL = sample_read and decode = sample_decode and url = "''data:image/png,face.png''"
        and img = "\<lparr>image_src = ''data:image/png,face.png''\<rparr>"]
      t r1 r2 d1 d2
    by simp
qed

section \<open>Proofs: the preloader\<close>

lemma counted_fields:
  "totalAssets (counted n a v p) = totalAssets p"
  "loadedAssets (counted n a v p) = loadedAssets p + n"
  "progress_widths (counted n a v p) =
     progress_widths p @ [real (loadedAssets p + n) / real (totalAssets p) * 100]"
  by (simp_all add: counted_def resolve_def updateProgress_def Let_def split: promise.splits)

lemma counted_promises:
  "promises (counted n a v p) b =
     (if b = a \<and> promises p a = Pending then Resolved v else promises p b)"
  by (simp add: counted_def resolve_def updateProgress_def Let_def split: promise.splits)

subsection \<open>The bar never moves back\<close>

lemma ratio_mono:
  "a \<le> b \<Longrightarrow> real a / real t * 100 \<le> real b / real t * 100"
  by (simp add: divide_right_mono)

lemma counted_bar_below:
  assumes "bar_below p"
    and "progress_widths q = progress_widths p"
    and "loadedAssets q = loadedAssets p"
    and "totalAssets q = totalAssets p"
  shows "bar_below (counted n a v q)"
proof -
  have s: "sorted (progress_widths p)"
    and le: "\<forall>x \<in> set (progress_widths p). x \<le> real (loadedAssets p) / real (totalAssets p) * 100"
    using assms(1) by (simp_all add: bar_below_def)
  have up: "real (loadedAssets p) / real (totalAssets p) * 100
            \<le> real (loadedAssets p + n) / real (totalAssets p) * 100"
    by (rule ratio_mono) simp
  have le': "\<forall>x \<in> set (progress_widths p). x \<le> real (loadedAssets p + n) / real (totalAssets p) * 100"
    using le up by fastforce
  show ?thesis
    unfolding bar_below_def counted_fields assms(2-4)
    using s le' by (simp add: sorted_append)
qed

lemma on_load_event_bar_below:
  assumes b: "bar_below p"
  shows "bar_below (on_load_event ev p)"
proof (cases ev)
  case (ImageSettles i ok)
  then show ?thesis
    unfolding on_load_event_def image_settles_def
    by (simp add: counted_bar_below[OF b])
next
  case (SlothSettles ok)
  then show ?thesis
    unfolding on_load_event_def image_settles_def
    by (simp add: counted_bar_below[OF b])
next
  case (ModelsSettle ok)
  then show ?thesis
    unfolding on_load_event_def models_settle_def
    by (simp add: counted_bar_below[OF b])
next
  case (SoundFires i e)
  have c: "bar_below (handleCanPlay i p)"
    unfolding handleCanPlay_def by (rule counted_bar_below[OF b]) simp_all
  have r: "bar_below (handleError i p)"
    unfolding handleError_def by (rule counted_bar_below[OF b]) simp_all
  show ?thesis
    using SoundFires b c r
    by (cases e) (simp_all add: on_load_event_def sound_fires_def)
qed

lemma run_schedule_bar_below: "bar_below p \<Longrightarrow> bar_below (run_schedule evs p)"
  by (induction evs arbitrary: p) (simp_all add: on_load_event_bar_below)

subsection \<open>No promise is rejected\<close>

lemma on_load_event_not_rejected:
  assumes "\<forall>b e. promises p b \<noteq> Rejected e"
  shows "promises (on_load_event ev p) b \<noteq> Rejected e"
  using assms
  by (cases ev)
     (auto simp: on_load_event_def image_settles_def sound_fires_def handleCanPlay_def
        handleError_def models_settle_def counted_promises split: media_event.splits)

lemma run_schedule_not_rejected:
  "\<forall>b e. promises p b \<noteq> Rejected e \<Longrightarrow> promises (run_schedule evs p) b \<noteq> Rejected e"
proof (induction evs arbitrary: p)
  case Nil
  then show ?case by simp
next
  case (Cons ev evs)
  have "\<forall>b e. promises (on_load_event ev p) b \<noteq> Rejected e"
    using on_load_event_not_rejected[OF Cons.prems] by blast
  from Cons.IH[OF this] show ?case by simp
qed

lemma promise_all_not_rejected:
  "\<forall>q \<in> set ps. \<forall>e. q \<noteq> Rejected e \<Longrightarrow> promise_all ps \<noteq> Rejected e"
proof (induction ps)
  case Nil
  then show ?case by simp
next
  case (Cons q ps)
  then have "promise_all ps \<noteq> Rejected e" "q \<noteq> Rejected e" by auto
  then show ?case by (auto split: promise.splits)
qed

lemma promise_all4_not_rejected:
  "\<forall>e. a \<noteq> Rejected e \<Longrightarrow> \<forall>e. b \<noteq> Rejected e \<Longrightarrow> \<forall>e. c \<noteq> Rejected e \<Longrightarrow>
   \<forall>e. d \<noteq> Rejected e \<Longrightarrow> promise_all4 a b c d \<noteq> Rejected e"
  by (auto simp: promise_all4_def split: promise.splits)

lemma loadAll_fst: "fst (loadAll s) = run_schedule s p0"
  by (simp add: loadAll_def p0_def Let_def)

lemma loadAll_never_rejected: "snd (loadAll s) \<noteq> Rejected e"
proof -
  have nr: "promises (run_schedule s p0) b \<noteq> Rejected e'" for b e'
    by (rule run_schedule_not_rejected) (simp add: p0_def)
  have "promise_all4
          (promise_all (map (\<lambda>i. promises (run_schedule s p0) (CharacterImage i)) [0..<length characterImage_srcs]))
          (promises (run_schedule s p0) SlothImage)
          (promise_all (map (\<lambda>i. promises (run_schedule s p0) (Sound i)) [0..<length sound_srcs]))
          (promises (run_schedule s p0) FaceApiModels) \<noteq> Rejected e'" for e'
    by (rule promise_all4_not_rejected) (auto intro!: promise_all_not_rejected simp: nr nr[symmetric])
  then show ?thesis
    by (auto simp: loadAll_def Let_def p0_def split: promise.splits)
qed

lemma loadAll_sorted: "sorted (progress_widths (fst (loadAll s)))"
proof -
  have "bar_below p0" by (simp add: bar_below_def p0_def)
  then have "bar_below (run_schedule s p0)" by (rule run_schedule_bar_below)
  then show ?thesis by (simp add: loadAll_fst bar_below_def)
qed

text \<open>
  \<^bold>\<open>C4.\<close> What \<open>loadAll\<close> does when the first sound fires \<open>loadeddata\<close> and, later,
  \<open>error\<close>, every other load completing once: \<open>handleCanPlay\<close> has left the \<open>error\<close>
  listener attached, so \<open>handleError\<close> counts the sound a second time. With
  \<open>totalAssets = 25\<close> the counter ends at 26 and the bar at 104, after 100: the ratio passes
  1. The promise of \<open>loadAll\<close> is fulfilled all the same. Without the late \<open>error\<close> the
  counter ends at 25 and the bar at 100. For every schedule, the promise is not rejected and
  the values written to the bar are in ascending order.
\<close>

theorem loadAll_counts_sound_twice:
  "totalAssets (fst (loadAll schedule_twice)) = 25 \<and>
   loadedAssets (fst (loadAll schedule_twice)) = 26 \<and>
   progress_widths (fst (loadAll schedule_twice)) =
     [4, 8, 12, 16, 20, 24, 28, 32, 36, 40, 44, 48, 52, 56, 60, 64, 68, 72, 76,
      80, 84, 88, 92, 100, 104] \<and>
   (\<exists>bundle. snd (loadAll schedule_twice) = Resolved bundle) \<and>
   loadedAssets (fst (loadAll schedule_once)) = 25 \<and>
   last (progress_widths (fst (loadAll schedule_once))) = 100 \<and>
   (\<forall>s e. snd (loadAll s) \<noteq> Rejected e) \<and>
   (\<forall>s. sorted (progress_widths (fst (loadAll s))))"
proof -
  have t: "totalAssets (fst (loadAll schedule_twice)) = 25"
    and l: "loadedAssets (fst (loadAll schedule_twice)) = 26"
    and w: "progress_widths (fst (loadAll schedule_twice)) =
     [4, 8, 12, 16, 20, 24, 28, 32, 36, 40, 44, 48, 52, 56, 60, 64, 68, 72, 76,
      80, 84, 88, 92, 100, 104]"
    and o: "loadedAssets (fst (loadAll schedule_once)) = 25"
    and ow: "last (progress_widths (fst (loadAll schedule_once))) = 100"
    by code_simp+
  have "snd (loadAll schedule_twice) \<noteq> Pending" by code_simp
  then have r: "\<exists>bundle. snd (loadAll schedule_twice) = Resolved bundle"
    using loadAll_never_rejected[of schedule_twice]
    by (cases "snd (loadAll schedule_twice)") auto
  show ?thesis
    using t l w o ow r loadAll_never_rejected loadAll_sorted by blast
qed

section \<open>Proofs: the capture stage and the camera\<close>

lemma act_fields:
  "app_camera (act a s) = app_camera s"
  "active (act a s) = active s"
  "live_streams (act a s) = live_streams s"
  "app_log (act a s) = app_log s @ [a]"
  by (simp_all add: act_def)

lemma switchScreen_fields:
  "app_camera (switchScreen a b s) = app_camera s"
  "active (switchScreen a b s) = insert b (active s - {a})"
  "live_streams (switchScreen a b s) = live_streams s"
  "app_log (switchScreen a b s) = app_log s @ [ScreenSwitch a b]"
  by (simp_all add: switchScreen_def act_fields)

lemma camera_stop_fields:
  "stream (app_camera (camera_stop s)) = None"
  "active (camera_stop s) = active s"
  "app_log (camera_stop s) = app_log s @ [CameraStop]"
  "live_streams (camera_stop s) =
     live_streams s - (case stream (app_camera s) of Some st \<Rightarrow> {st} | None \<Rightarrow> {})"
  by (simp_all add: camera_stop_def act_fields stop_def)

lemma handleCancelWebcam_stops:
  "app_log (handleCancelWebcam s) =
     app_log s @ [CameraStop, ScreenSwitch Webcam_screen Upload_screen]"
  "stream (app_camera (handleCancelWebcam s)) = None"
  by (simp_all add: handleCancelWebcam_def switchScreen_fields camera_stop_fields)

text \<open>
  \<^bold>\<open>C6.\<close> What the application does when the webcam button is clicked twice before
  \<open>getUserMedia\<close> has answered (after the first click the upload screen is still active).
  Both calls are answered, with streams 1 and 2; the second assignment to \<open>camera.stream\<close>
  replaces the first, so the camera refers to stream 2 while both are live. Cancel then calls
  \<open>stop()\<close>, which stops stream 2, and switches to the upload screen: the upload screen is
  active, \<open>camera.stream\<close> is \<open>null\<close>, and stream 1 is still live. The same holds after a
  capture in which no face is found, followed by retry. After a single click, cancel leaves no
  stream live. In every state, cancel calls \<open>stop()\<close> before it switches the screen.
\<close>

theorem two_webcam_clicks_leave_a_stream_live:
  "Upload_screen \<in> active (run_events [WebcamClick] app0) \<and>
   active (run_events two_clicks app0) = {Webcam_screen} \<and>
   stream (app_camera (run_events two_clicks app0)) = Some 2 \<and>
   live_streams (run_events two_clicks app0) = {1, 2} \<and>
   app_log (run_events (two_clicks @ [CancelWebcam]) app0) =
     [CameraStart, CameraStart, ScreenSwitch Upload_screen Webcam_screen,
      ScreenSwitch Upload_screen Webcam_screen, CameraStop,
      ScreenSwitch Webcam_screen Upload_screen] \<and>
   active (run_events (two_clicks @ [CancelWebcam]) app0) = {Upload_screen} \<and>
   stream (app_camera (run_events (two_clicks @ [CancelWebcam]) app0)) = None \<and>
   live_streams (run_events (two_clicks @ [CancelWebcam]) app0) = {1} \<and>
   app_log (run_events (two_clicks @ [TakePhoto (Processed NoFace), Retry]) app0) =
     [CameraStart, CameraStart, ScreenSwitch Upload_screen Webcam_screen,
      ScreenSwitch Upload_screen Webcam_screen, CapturePhoto, CameraStop,
      ScreenSwitch Upload_screen Analysis_screen, ScreenSwitch Webcam_screen Analysis_screen,
      ScreenSwitch Analysis_screen Error_screen, ScreenSwitch Error_screen Upload_screen] \<and>
   active (run_events (two_clicks @ [TakePhoto (Processed NoFace), Retry]) app0) = {Upload_screen} \<and>
   live_streams (run_events (two_clicks @ [TakePhoto (Processed NoFace), Retry]) app0) = {1} \<and>
   active (run_events (one_click @ [CancelWebcam]) app0) = {Upload_screen} \<and>
   live_streams (run_events (one_click @ [CancelWebcam]) app0) = {} \<and>
   app_log (handleCancelWebcam s) =
     app_log s @ [CameraStop, ScreenSwitch Webcam_screen Upload_screen] \<and>
   stream (app_camera (handleCancelWebcam s)) = None"
proof -
  have a: "Upload_screen \<in> active (run_events [WebcamClick] app0)"
    and b: "active (run_events two_clicks app0) = {Webcam_screen}"
    and c: "stream (app_camera (run_events two_clicks app0)) = Some 2"
    and d: "live_streams (run_events two_clicks app0) = {1, 2}"
    by code_simp+
  have e: "app_log (run_events (two_clicks @ [CancelWebcam]) app0) =
     [CameraStart, CameraStart, ScreenSwitch Upload_screen Webcam_screen,
      ScreenSwitch Upload_screen Webcam_screen, CameraStop,
      ScreenSwitch Webcam_screen Upload_screen]"
    and f: "active (run_events (two_clicks @ [CancelWebcam]) app0) = {Upload_screen}"
    and g: "stream (app_camera (run_events (two_clicks @ [CancelWebcam]) app0)) = None"
    and h: "live_streams (run_events (two_clicks @ [CancelWebcam]) app0) = {1}"
    by code_simp+
  have i: "app_log (run_events (two_clicks @ [TakePhoto (Processed NoFace), Retry]) app0) =
     [CameraStart, CameraStart, ScreenSwitch Upload_screen Webcam_screen,
      ScreenSwitch Upload_screen Webcam_screen, CapturePhoto, CameraStop,
      ScreenSwitch Upload_screen Analysis_screen, ScreenSwitch Webcam_screen Analysis_screen,
      ScreenSwitch Analysis_screen Error_screen, ScreenSwitch Error_screen Upload_screen]"
    and j: "active (run_events (two_clicks @ [TakePhoto (Processed NoFace), Retry]) app0) = {Upload_screen}"
    and k: "live_streams (run_events (two_clicks @ [TakePhoto (Processed NoFace), Retry]) app0) = {1}"
    by code_simp+
  have l: "active (run_events (one_click @ [CancelWebcam]) app0) = {Upload_screen}"
    and m: "live_streams (run_events (one_click @ [CancelWebcam]) app0) = {}"
    by code_simp+
  show ?thesis
    using a b c d e f g h i j k l m handleCancelWebcam_stops[of s] by simp
qed

end
